theory Spec2Isabelle
  imports Main "HOL-Library.AList"
begin

section \<open>Type definitions generated from Storyblok component schemas\<close>

text \<open>
  A shallow embedding of the class \<open>GenerateTypesFromJSONSchemas\<close> of
  \<^verbatim>\<open>src/utils/typescript/generateTypesFromJSONSchema.ts\<close>. JavaScript objects whose keys
  the code enumerates are association lists in enumeration order (the schema of a
  component is the list \<^verbatim>\<open>Object.entries\<close> yields), optional properties are
  \<open>option\<close> values (\<open>None\<close> is \<^verbatim>\<open>undefined\<close>), the private mutable members of the
  instance are a state record threaded through every method, and the two services the
  class calls but does not define (the lodash case conversion and the
  json-schema-to-typescript compiler) are function-valued members of the instance.
\<close>

subsection \<open>JavaScript helpers\<close>

text \<open>\<^verbatim>\<open>Array.prototype.join\<close> on an array of strings.\<close>

fun join :: "string \<Rightarrow> string list \<Rightarrow> string" where
  "join sep [] = []"
| "join sep [x] = x"
| "join sep (x # y # ys) = x @ sep @ join sep (y # ys)"

text \<open>Interpolation of an optional string in a template literal.\<close>

definition template :: "string option \<Rightarrow> string" where
  "template v = (case v of None \<Rightarrow> ''undefined'' | Some s \<Rightarrow> s)"

text \<open>The nullish coalescing \<^verbatim>\<open>v ?? ""\<close>.\<close>

definition nullish_empty :: "string option \<Rightarrow> string" where
  "nullish_empty v = (case v of None \<Rightarrow> [] | Some s \<Rightarrow> s)"

text \<open>Truthiness of an optional boolean and of an optional string.\<close>

definition truthy :: "bool option \<Rightarrow> bool" where
  "truthy b = (b = Some True)"

definition truthy_string :: "string option \<Rightarrow> bool" where
  "truthy_string s = (case s of None \<Rightarrow> False | Some t \<Rightarrow> t \<noteq> [])"

text \<open>\<^verbatim>\<open>Set.prototype.add\<close> on an insertion-ordered set.\<close>

definition set_add :: "'a list \<Rightarrow> 'a \<Rightarrow> 'a list" where
  "set_add xs x = (if x \<in> set xs then xs else xs @ [x])"

text \<open>
  The own properties of a plain JavaScript object, in the order the language enumerates
  them: the keys that are array indices first, in ascending order, then the other keys
  in the order of their creation. An array index is the canonical decimal form of an
  integer from 0 to 4294967294.
\<close>

definition digit_value :: "char \<Rightarrow> nat option" where
  "digit_value c =
     map_of [(CHR ''0'', 0), (CHR ''1'', 1), (CHR ''2'', 2), (CHR ''3'', 3), (CHR ''4'', 4),
             (CHR ''5'', 5), (CHR ''6'', 6), (CHR ''7'', 7), (CHR ''8'', 8), (CHR ''9'', 9)] c"

definition array_index :: "string \<Rightarrow> nat option" where
  "array_index k =
     (case those (map digit_value k) of
        None \<Rightarrow> None
      | Some ds \<Rightarrow>
          (if ds = [] \<or> (length ds > 1 \<and> hd ds = 0) then None
           else (let n = foldl (\<lambda>acc d. 10 * acc + d) 0 ds
                 in if n < 4294967295 then Some n else None)))"

fun insert_by_index :: "nat \<Rightarrow> string \<times> 'v \<Rightarrow> (string \<times> 'v) list \<Rightarrow> (string \<times> 'v) list" where
  "insert_by_index n e [] = [e]"
| "insert_by_index n e (x # xs) =
     (case array_index (fst x) of
        Some m \<Rightarrow> (if m < n then x # insert_by_index n e xs else e # x # xs)
      | None \<Rightarrow> e # x # xs)"

text \<open>
  The assignment \<^verbatim>\<open>obj[k] = v\<close> on a plain object. An existing key keeps its place, a
  new key is created. The key \<^verbatim>\<open>__proto__\<close> is never created: the assignment reaches the
  setter of \<^verbatim>\<open>Object.prototype\<close>, which changes the prototype of the object and adds no own
  property (prototypes are not part of the model).
\<close>

definition set_property :: "(string \<times> 'v) list \<Rightarrow> string \<Rightarrow> 'v \<Rightarrow> (string \<times> 'v) list" where
  "set_property obj k v =
     (if k = ''__proto__'' then obj
      else if k \<in> set (map fst obj) then AList.update k v obj
      else (case array_index k of
              Some n \<Rightarrow> insert_by_index n (k, v) obj
            | None \<Rightarrow> obj @ [(k, v)]))"

text \<open>
  \<^verbatim>\<open>Object.assign(target, source)\<close>: every own property of the source is assigned to the
  target in turn.
\<close>

definition object_assign :: "(string \<times> 'v) list \<Rightarrow> (string \<times> 'v) list \<Rightarrow> (string \<times> 'v) list" where
  "object_assign target src = foldl (\<lambda>acc (k, v). set_property acc k v) target src"

subsection \<open>Input: component schemas\<close>

text \<open>
  \<open>ISbBlokPropertySchema\<close> of \<^verbatim>\<open>src/types/generate-typescript-typedefs.ts\<close>, with the
  further keys the generator reads from a schema element (\<open>required\<close>,
  \<open>email_link_type\<close>, \<open>asset_link_type\<close>; the source documents the last two as
  booleans that may be undefined). \<open>options\<close> holds the \<open>value\<close> of each option, the only
  member of an option the generator reads.
\<close>

record field_schema =
  type :: string
  source :: "string option"
  options :: "string list option"
  filter_content_type :: "string list option"
  restrict_components :: "bool option"
  component_whitelist :: "string list option"
  component_group_whitelist :: "string list option"
  restrict_type :: "string option"
  exclude_empty_option :: "bool option"
  email_link_type :: "bool option"
  asset_link_type :: "bool option"
  required :: "bool option"

text \<open>A schema element of the given type with every optional key absent.\<close>

definition field :: "string \<Rightarrow> field_schema" where
  "field t = \<lparr>type = t, source = None, options = None, filter_content_type = None,
     restrict_components = None, component_whitelist = None,
     component_group_whitelist = None, restrict_type = None, exclude_empty_option = None,
     email_link_type = None, asset_link_type = None, required = None\<rparr>"

text \<open>A component: its name, its group and the entries of its \<open>schema\<close> object.\<close>

record component =
  name :: string
  component_group_uuid :: "string option"
  schema :: "(string \<times> field_schema) list"

subsection \<open>Output: type annotations and the schemas handed to the compiler\<close>

text \<open>\<^verbatim>\<open>type: string | string[]\<close> of \<open>BlokSchemaPropertyTypeAnnotation\<close>.\<close>

datatype json_type = Single string | Multiple "string list"

datatype items = ItemsType json_type | ItemsEnum "string list"

text \<open>
  \<open>BlokSchemaPropertyTypeAnnotation\<close>, as one record of optional keys, with the
  \<open>tsType\<close> key that \<open>#typeMapper\<close> adds to whichever variant it got.
\<close>

record annotation =
  ann_type :: "json_type option"
  ann_enum :: "string list option"
  ann_items :: "items option"
  tsType :: "string option"

definition no_annotation :: annotation where
  "no_annotation = \<lparr>ann_type = None, ann_enum = None, ann_items = None, tsType = None\<rparr>"

text \<open>
  A value of the field mapping of a component: an annotation computed by the generator,
  or whatever the custom field parser returned under a key (kept as its JSON text).
\<close>

datatype property = Annotation annotation | CustomProperty string

text \<open>The object \<open>obj\<close> that \<open>generateTSFile\<close> builds for a component.\<close>

record object_schema =
  schema_id :: string
  title :: string
  obj_type :: string
  obj_required :: "string list"
  properties :: "(string \<times> property) list"

text \<open>
  Modelled from the spec: the five schema getters of
  \<^verbatim>\<open>./autogeneratedStoryblokTypes\<close> are not among the sources. Each is a function of the
  title alone ("request its shared schema definition"), so the schema a getter returns
  is kept symbolic as the kind together with the title.
\<close>

datatype jsonschema = ComponentSchema object_schema | AutogeneratedSchema string string

subsection \<open>The instance and its mutable members\<close>

text \<open>
  A custom field parser returns a fragment of the field mapping, or throws. The compiler
  returns the definition text or throws (\<open>Inl\<close> is the thrown error); being an external
  service it may answer differently from one call to the next, so it is also given the
  number of calls made before. The formatting options are fixed for the run and are
  part of the compiler.
\<close>

type_synonym custom_type_parser =
  "string \<Rightarrow> field_schema \<Rightarrow> string + (string \<times> property) list"

record generator =
  typeNamesPrefix :: "string option"
  typeNamesSuffix :: "string option"
  componentsJSONSchemas :: "component list"
  customTypeParser :: "custom_type_parser option"
  componentGroups :: "(string \<times> string list) list"
  componentNames :: "string list"
  pascalCase :: "string \<Rightarrow> string"
  compile :: "nat \<Rightarrow> jsonschema \<Rightarrow> string \<Rightarrow> string + string"

text \<open>
  Which statement pushed an entry of \<open>#typeDefsFileStrings\<close>: the initial import line,
  the definition of a shared kind in \<open>#typeMapper\<close>, or the definition of a component.
\<close>

datatype origin = ImportLine | SharedType string | ComponentType string

text \<open>
  \<open>#typeDefsFileStrings\<close> (each string with its origin) and \<open>#hasTypeBeenGenerated\<close>,
  with a record of the effects on the outside: the calls to the compiler, the calls of
  \<open>#hasTypeBeenGenerated.set\<close>, and the lines printed to the console (one list of
  arguments per call).
\<close>

record gen_state =
  typeDefsFileStrings :: "(origin \<times> string) list"
  hasTypeBeenGenerated :: "string \<rightharpoonup> bool"
  compileCalls :: "(jsonschema \<times> string) list"
  registrySets :: "string list"
  console :: "string list list"

definition STORY_DATATYPE_NAME :: string where
  "STORY_DATATYPE_NAME = ''ISbStoryData''"

definition initial_state :: gen_state where
  "initial_state = \<lparr>
     typeDefsFileStrings =
       [(ImportLine, ''import type { '' @ STORY_DATATYPE_NAME @ '' } from \"storyblok\";'')],
     hasTypeBeenGenerated =
       [''asset'' \<mapsto> False, ''multiasset'' \<mapsto> False, ''multilink'' \<mapsto> False,
        ''richtext'' \<mapsto> False, ''table'' \<mapsto> False],
     compileCalls = [],
     registrySets = [],
     console = []\<rparr>"

text \<open>The keys of \<open>#getAutogeneratedTypeSchema\<close>, and the map itself.\<close>

definition autogeneratedPropertyTypes :: "string list" where
  "autogeneratedPropertyTypes = [''asset'', ''multiasset'', ''multilink'', ''richtext'', ''table'']"

definition getAutogeneratedTypeSchema :: "string \<Rightarrow> (string \<Rightarrow> jsonschema) option" where
  "getAutogeneratedTypeSchema typeName =
     (if typeName \<in> set autogeneratedPropertyTypes then Some (AutogeneratedSchema typeName)
      else None)"

subsection \<open>The group index\<close>

text \<open>The reducer of \<open>#generateComponentGroupsAndComponentNamesFromJSONSchemas\<close>.\<close>

definition add_component ::
  "(string \<times> string list) list \<times> string list \<Rightarrow> component \<Rightarrow>
   (string \<times> string list) list \<times> string list" where
  "add_component acc currentComponent =
     (let groups = fst acc; names = snd acc;
          groups' =
            (if truthy_string (component_group_uuid currentComponent) then
               (let uuid = the (component_group_uuid currentComponent) in
                AList.update uuid
                  (case map_of groups uuid of
                     Some members \<Rightarrow> set_add members (name currentComponent)
                   | None \<Rightarrow> [name currentComponent])
                  groups)
             else groups)
      in (groups', set_add names (name currentComponent)))"

definition generateComponentGroupsAndComponentNamesFromJSONSchemas ::
  "component list \<Rightarrow> (string \<times> string list) list \<times> string list" where
  "generateComponentGroupsAndComponentNamesFromJSONSchemas schemas =
     foldl add_component ([], []) schemas"

text \<open>The constructor.\<close>

definition new_generator ::
  "string option \<Rightarrow> string option \<Rightarrow> custom_type_parser option \<Rightarrow> (string \<Rightarrow> string) \<Rightarrow>
   (nat \<Rightarrow> jsonschema \<Rightarrow> string \<Rightarrow> string + string) \<Rightarrow> component list \<Rightarrow> generator" where
  "new_generator prefix suffix parser pascal compiler schemas =
     (let index = generateComponentGroupsAndComponentNamesFromJSONSchemas schemas
      in \<lparr>typeNamesPrefix = prefix, typeNamesSuffix = suffix,
          componentsJSONSchemas = schemas, customTypeParser = parser,
          componentGroups = fst index, componentNames = snd index,
          pascalCase = pascal, compile = compiler\<rparr>)"

subsection \<open>Type names\<close>

text \<open>
  \<open>#getBlokTypeName\<close>. \<open>pascalCase g\<close> stands for the lodash pipeline
  \<^verbatim>\<open>startCase(camelCase(s)).replace(/ /g, "")\<close>.
\<close>

definition getBlokTypeName :: "generator \<Rightarrow> string \<Rightarrow> string" where
  "getBlokTypeName g blokName =
     pascalCase g (nullish_empty (typeNamesPrefix g) @ blokName @ template (typeNamesSuffix g))"

definition getStoryType :: "generator \<Rightarrow> string \<Rightarrow> string" where
  "getStoryType g storyBlokName =
     STORY_DATATYPE_NAME @ ''<'' @ getBlokTypeName g storyBlokName @ ''>''"

subsection \<open>Classifying one schema element\<close>

text \<open>The array \<open>options\<close> of \<open>#parseBlokSchemaProperty\<close>, after the empty option is added.\<close>

definition option_values :: "field_schema \<Rightarrow> string list" where
  "option_values schemaProperty =
     (let opts = (case options schemaProperty of
                    Some os \<Rightarrow> (if length os > 0 then os else [])
                  | None \<Rightarrow> [])
      in if length opts > 0 \<and> exclude_empty_option schemaProperty \<noteq> Some True
         then [] # opts else opts)"

text \<open>The variable \<open>type\<close> of \<open>#parseBlokSchemaProperty\<close> after its two assignments.\<close>

definition fallback_type :: "field_schema \<Rightarrow> string list \<Rightarrow> json_type" where
  "fallback_type schemaProperty opts =
     (let t1 = (if (length opts > 0 \<and> \<not> truthy_string (source schemaProperty))
                   \<or> source schemaProperty = Some ''internal_languages''
                   \<or> source schemaProperty = Some ''external''
                then Single ''string'' else Single ''any'')
      in if source schemaProperty = Some ''internal'' then Multiple [''number'', ''string'']
         else t1)"

definition parseBlokSchemaProperty :: "generator \<Rightarrow> field_schema \<Rightarrow> annotation" where
  "parseBlokSchemaProperty g schemaProperty =
     (if type schemaProperty \<in> set autogeneratedPropertyTypes
      then no_annotation\<lparr>ann_type := Some (Single (type schemaProperty))\<rparr>
      else
        let opts = option_values schemaProperty in
        case (if source schemaProperty = Some ''internal_stories''
              then filter_content_type schemaProperty else None) of
          Some contentTypes \<Rightarrow>
            no_annotation\<lparr>tsType := Some
              (''('' @ join '' | '' (map (getStoryType g) contentTypes) @ '' | string )''
               @ (if type schemaProperty = ''options'' then ''[]'' else []))\<rparr>
        | None \<Rightarrow>
            let ty = fallback_type schemaProperty opts in
            if type schemaProperty = ''option'' then
              (if length opts > 0
               then no_annotation\<lparr>ann_type := Some ty, ann_enum := Some opts\<rparr>
               else no_annotation\<lparr>ann_type := Some ty\<rparr>)
            else if type schemaProperty = ''options'' then
              (if length opts > 0
               then no_annotation\<lparr>ann_type := Some (Single ''array''),
                      ann_items := Some (ItemsEnum opts)\<rparr>
               else no_annotation\<lparr>ann_type := Some (Single ''array''),
                      ann_items := Some (ItemsType ty)\<rparr>)
            else if type schemaProperty = ''bloks''
              then no_annotation\<lparr>ann_type := Some (Single ''array'')\<rparr>
            else if type schemaProperty = ''boolean''
              then no_annotation\<lparr>ann_type := Some (Single ''boolean'')\<rparr>
            else if type schemaProperty \<in>
                 set [''datetime'', ''image'', ''markdown'', ''number'', ''text'', ''textarea'']
              then no_annotation\<lparr>ann_type := Some (Single ''string'')\<rparr>
            else no_annotation\<lparr>ann_type := Some (Single ''any'')\<rparr>)"

subsection \<open>Shared types\<close>

definition push :: "origin \<Rightarrow> string \<Rightarrow> gen_state \<Rightarrow> gen_state" where
  "push tag ts st = st\<lparr>typeDefsFileStrings := typeDefsFileStrings st @ [(tag, ts)]\<rparr>"

text \<open>One call of the compiler: its answer, and the call recorded.\<close>

definition call_compile ::
  "generator \<Rightarrow> jsonschema \<Rightarrow> string \<Rightarrow> gen_state \<Rightarrow> (string + string) \<times> gen_state" where
  "call_compile g sch nm st =
     (compile g (length (compileCalls st)) sch nm,
      st\<lparr>compileCalls := compileCalls st @ [(sch, nm)]\<rparr>)"

text \<open>\<open>#generateTypeString\<close>: the flag is set only after the compiler has returned.\<close>

definition generateTypeString ::
  "generator \<Rightarrow> jsonschema \<Rightarrow> string \<Rightarrow> gen_state \<Rightarrow> (string + string) \<times> gen_state" where
  "generateTypeString g sch typeName st =
     (case call_compile g sch typeName st of
        (Inl e, st1) \<Rightarrow> (Inl e, st1)
      | (Inr typeString, st1) \<Rightarrow>
          (Inr typeString,
           st1\<lparr>hasTypeBeenGenerated := (hasTypeBeenGenerated st1)(typeName \<mapsto> True),
               registrySets := registrySets st1 @ [typeName]\<rparr>))"

text \<open>
  \<open>#generateAutogeneratedType\<close>: \<open>None\<close> is the result \<^verbatim>\<open>undefined\<close>, returned when the kind
  has no schema getter and when the compiler threw (the \<^verbatim>\<open>catch\<close> prints the error).
\<close>

definition generateAutogeneratedType ::
  "generator \<Rightarrow> string \<Rightarrow> string \<Rightarrow> gen_state \<Rightarrow> string option \<times> gen_state" where
  "generateAutogeneratedType g typeName title' st =
     (case getAutogeneratedTypeSchema typeName of
        None \<Rightarrow> (None, st)
      | Some getSchema \<Rightarrow>
          (case generateTypeString g (getSchema title') typeName st of
             (Inl e, st1) \<Rightarrow>
               (None, st1\<lparr>console := console st1 @
                  [[''Error generating type '' @ typeName @ '' with title '' @ title', e]]\<rparr>)
           | (Inr typeString, st1) \<Rightarrow> (Some typeString, st1)))"

text \<open>\<open>#generateType\<close>: \<open>None\<close> is also the result \<^verbatim>\<open>false\<close> of the short-circuit.\<close>

definition generateType ::
  "generator \<Rightarrow> string \<Rightarrow> string \<Rightarrow> gen_state \<Rightarrow> string option \<times> gen_state" where
  "generateType g typeName title' st =
     (if hasTypeBeenGenerated st typeName = Some True then (None, st)
      else generateAutogeneratedType g typeName title' st)"

subsection \<open>The field mapping of a component\<close>

text \<open>The \<open>tsType\<close> that \<open>#typeMapper\<close> assigns to a multilink element.\<close>

definition multilinkTsType :: "generator \<Rightarrow> field_schema \<Rightarrow> string" where
  "multilinkTsType g schemaElement =
     (let excludedLinktypes =
            (if \<not> truthy (email_link_type schemaElement)
             then [''{ linktype?: \"email\" }''] else [])
            @ (if \<not> truthy (asset_link_type schemaElement)
               then [''{ linktype?: \"asset\" }''] else []);
          baseType = getBlokTypeName g ''multilink''
      in if length excludedLinktypes > 0
         then ''Exclude<'' @ baseType @ '', '' @ join '' | '' excludedLinktypes @ ''>''
         else baseType)"

text \<open>The reduction over \<open>component_group_whitelist\<close>.\<close>

definition currentGroupElements :: "generator \<Rightarrow> string list \<Rightarrow> string list" where
  "currentGroupElements g whitelist =
     foldl (\<lambda>bloks groupUUID.
              case map_of (componentGroups g) groupUUID of
                Some bloksInGroup \<Rightarrow> bloks @ map (getBlokTypeName g) bloksInGroup
              | None \<Rightarrow> bloks)
       [] whitelist"

text \<open>
  The \<open>tsType\<close> that \<open>#typeMapper\<close> assigns to a bloks element; \<open>None\<close> when no branch
  assigns one.
\<close>

definition bloksTsType :: "generator \<Rightarrow> field_schema \<Rightarrow> string option" where
  "bloksTsType g schemaElement =
     (if truthy (restrict_components schemaElement) then
        (if restrict_type schemaElement = Some ''groups'' then
           (case component_group_whitelist schemaElement of
              Some whitelist \<Rightarrow>
                (if length whitelist > 0 then
                   (let elems = currentGroupElements g whitelist
                    in Some (if length elems > 0
                             then ''('' @ join '' | '' elems @ '')[]'' else ''never[]''))
                 else None)
            | None \<Rightarrow> None)
         else
           (case component_whitelist schemaElement of
              Some whitelist \<Rightarrow>
                (if length whitelist > 0
                 then Some (''('' @ join '' | '' (map (getBlokTypeName g) whitelist) @ '')[]'')
                 else None)
            | None \<Rightarrow> None))
      else Some (''('' @ join '' | '' (map (getBlokTypeName g) (componentNames g)) @ '')[]''))"

text \<open>
  The body of the loop of \<open>#typeMapper\<close> for an element that is not a custom field: the
  annotation stored under the key, and the state after the shared type was generated.
\<close>

definition typeMapperField ::
  "generator \<Rightarrow> field_schema \<Rightarrow> gen_state \<Rightarrow> annotation \<times> gen_state" where
  "typeMapperField g schemaElement st =
     (let type' = type schemaElement;
          element = parseBlokSchemaProperty g schemaElement;
          (e1, st1) =
            (if type' \<in> set autogeneratedPropertyTypes then
               (let blokName = getBlokTypeName g type';
                    (ts, st') = generateType g type' blokName st
                in (element\<lparr>tsType := Some blokName\<rparr>,
                    case ts of
                      Some s \<Rightarrow> (if s \<noteq> [] then push (SharedType type') s st' else st')
                    | None \<Rightarrow> st'))
             else (element, st));
          e2 = (if type' = ''multilink''
                then e1\<lparr>tsType := Some (multilinkTsType g schemaElement)\<rparr> else e1);
          e3 = (if type' = ''bloks'' then
                  (case bloksTsType g schemaElement of
                     Some t \<Rightarrow> e2\<lparr>tsType := Some t\<rparr>
                   | None \<Rightarrow> e2)
                else e2)
      in (e3, st1))"

text \<open>
  One iteration of the loop of \<open>#typeMapper\<close>: \<open>obj\<close> is the fresh object that gets the
  element under the schema key and is then assigned onto \<open>parseObj\<close>. An exception of the
  custom parser leaves the method (\<open>Inl\<close>, with the state reached).
\<close>

definition typeMapperStep ::
  "generator \<Rightarrow> (string \<times> property) list \<times> gen_state \<Rightarrow> string \<times> field_schema \<Rightarrow>
   (string \<times> gen_state) + ((string \<times> property) list \<times> gen_state)" where
  "typeMapperStep g acc entry =
     (let parseObj = fst acc; st = snd acc;
          schemaKey = fst entry; schemaElement = snd entry
      in if take 4 schemaKey = ''tab-'' then Inr (parseObj, st)
         else if type schemaElement = ''custom'' then
           (case customTypeParser g of
              Some parser \<Rightarrow>
                (case parser schemaKey schemaElement of
                   Inl e \<Rightarrow> Inl (e, st)
                 | Inr fragment \<Rightarrow> Inr (object_assign parseObj fragment, st))
            | None \<Rightarrow> Inr (object_assign parseObj [], st))
         else
           (let (element, st') = typeMapperField g schemaElement st;
                obj = set_property [] schemaKey (Annotation element)
            in Inr (object_assign parseObj obj, st')))"

fun typeMapperLoop ::
  "generator \<Rightarrow> (string \<times> field_schema) list \<Rightarrow> (string \<times> property) list \<times> gen_state \<Rightarrow>
   (string \<times> gen_state) + ((string \<times> property) list \<times> gen_state)" where
  "typeMapperLoop g [] acc = Inr acc"
| "typeMapperLoop g (entry # entries) acc =
     (case typeMapperStep g acc entry of
        Inl x \<Rightarrow> Inl x
      | Inr acc' \<Rightarrow> typeMapperLoop g entries acc')"

definition typeMapper ::
  "generator \<Rightarrow> (string \<times> field_schema) list \<Rightarrow> gen_state \<Rightarrow>
   (string \<times> gen_state) + ((string \<times> property) list \<times> gen_state)" where
  "typeMapper g componentSchema st = typeMapperLoop g componentSchema ([], st)"

subsection \<open>Assembling and compiling the components\<close>

definition requiredFields :: "component \<Rightarrow> string list" where
  "requiredFields c =
     foldl (\<lambda>acc (key, v). if truthy (required v) then acc @ [key] else acc)
       [''component'', ''_uid''] (schema c)"

text \<open>The object \<open>obj\<close> once \<open>properties\<close>, \<open>_uid\<close> and \<open>component\<close> have been assigned.\<close>

definition componentObject ::
  "generator \<Rightarrow> component \<Rightarrow> (string \<times> property) list \<Rightarrow> object_schema" where
  "componentObject g c props =
     \<lparr>schema_id = ''#/'' @ name c,
      title = getBlokTypeName g (name c),
      obj_type = ''object'',
      obj_required = requiredFields c,
      properties =
        set_property
          (set_property props ''_uid''
             (Annotation (no_annotation\<lparr>ann_type := Some (Single ''string'')\<rparr>)))
          ''component''
          (Annotation (no_annotation\<lparr>ann_type := Some (Single ''string''),
                                      ann_enum := Some [name c]\<rparr>))\<rparr>"

text \<open>The body of the loop of \<open>generateTSFile\<close>.\<close>

definition generateComponent ::
  "generator \<Rightarrow> component \<Rightarrow> gen_state \<Rightarrow> (string \<times> gen_state) + gen_state" where
  "generateComponent g c st =
     (case typeMapper g (schema c) st of
        Inl x \<Rightarrow> Inl x
      | Inr (props, st1) \<Rightarrow>
          (case call_compile g (ComponentSchema (componentObject g c props)) (name c) st1 of
             (Inr ts, st2) \<Rightarrow> Inr (push (ComponentType (name c)) ts st2)
           | (Inl e, st2) \<Rightarrow> Inr (st2\<lparr>console := console st2 @ [[''ERROR'', e]]\<rparr>)))"

fun generateLoop ::
  "generator \<Rightarrow> component list \<Rightarrow> gen_state \<Rightarrow> (string \<times> gen_state) + gen_state" where
  "generateLoop g [] st = Inr st"
| "generateLoop g (c # cs) st =
     (case generateComponent g c st of
        Inl x \<Rightarrow> Inl x
      | Inr st' \<Rightarrow> generateLoop g cs st')"

text \<open>
  \<open>generateTSFile\<close> on a fresh instance: \<open>Inr\<close> is the state \<open>#writeTypeDefs\<close> writes out,
  \<open>Inl\<close> the exception that rejected the promise and the state reached by then.
\<close>

definition generateTSFile :: "generator \<Rightarrow> (string \<times> gen_state) + gen_state" where
  "generateTSFile g = generateLoop g (componentsJSONSchemas g) initial_state"

definition final_state :: "(string \<times> gen_state) + gen_state \<Rightarrow> gen_state" where
  "final_state r = (case r of Inl (e, st) \<Rightarrow> st | Inr st \<Rightarrow> st)"

text \<open>The text \<open>#writeTypeDefs\<close> writes to the destination file.\<close>

definition writeTypeDefs :: "gen_state \<Rightarrow> string" where
  "writeTypeDefs st = join [CHR 0x0A] (map snd (typeDefsFileStrings st))"

subsection \<open>A formatter to run the generator with\<close>

text \<open>
  Modelled from the spec: lodash is not among the sources. Section 4.5 describes the
  formatter as splitting on non-alphanumeric boundaries, capitalizing each segment, and
  removing separators; this is that description on ASCII text, used where a theorem
  evaluates the generator on a concrete input.
\<close>

definition lower_chars :: string where
  "lower_chars = ''abcdefghijklmnopqrstuvwxyz''"

definition upper_chars :: string where
  "upper_chars = ''ABCDEFGHIJKLMNOPQRSTUVWXYZ''"

definition is_alphanumeric :: "char \<Rightarrow> bool" where
  "is_alphanumeric c = (c \<in> set (lower_chars @ upper_chars @ ''0123456789''))"

definition upper_char :: "char \<Rightarrow> char" where
  "upper_char c = (case map_of (zip lower_chars upper_chars) c of Some u \<Rightarrow> u | None \<Rightarrow> c)"

fun segments :: "string \<Rightarrow> string \<Rightarrow> string list" where
  "segments cur [] = (if cur = [] then [] else [cur])"
| "segments cur (c # cs) =
     (if is_alphanumeric c then segments (cur @ [c]) cs
      else (if cur = [] then [] else [cur]) @ segments [] cs)"

definition capitalize :: "string \<Rightarrow> string" where
  "capitalize s = (case s of [] \<Rightarrow> [] | c # cs \<Rightarrow> upper_char c # cs)"

definition pascal_of_spec :: "string \<Rightarrow> string" where
  "pascal_of_spec s = concat (map capitalize (segments [] s))"

subsection \<open>Sample inputs\<close>

text \<open>
  Two compilers, one that accepts every schema and one that rejects every schema, and
  one whose first call fails and whose later calls succeed.
\<close>

definition accepting_compile :: "nat \<Rightarrow> jsonschema \<Rightarrow> string \<Rightarrow> string + string" where
  "accepting_compile n sch nm = Inr (''export type '' @ nm)"

definition rejecting_compile :: "nat \<Rightarrow> jsonschema \<Rightarrow> string \<Rightarrow> string + string" where
  "rejecting_compile n sch nm = Inl ''boom''"

definition flaky_compile :: "nat \<Rightarrow> jsonschema \<Rightarrow> string \<Rightarrow> string + string" where
  "flaky_compile n sch nm = (if n = 0 then Inl ''boom'' else Inr (''export type '' @ nm))"

text \<open>
  The two components of the round-trip scenario of the specification, the first with an
  asset field added, and a third component that declares fields named like the two
  system fields.
\<close>

definition teaser :: component where
  "teaser = \<lparr>name = ''teaser'', component_group_uuid = None,
     schema = [(''headline'', (field ''text'')\<lparr>required := Some True\<rparr>),
               (''image'', field ''asset'')]\<rparr>"

definition grid :: component where
  "grid = \<lparr>name = ''grid'', component_group_uuid = Some ''uuid-1'',
     schema = [(''items'', field ''bloks''), (''cover'', field ''asset'')]\<rparr>"

definition shadow :: component where
  "shadow = \<lparr>name = ''shadow'', component_group_uuid = None,
     schema = [(''_uid'', field ''boolean''), (''component'', field ''bloks'')]\<rparr>"

definition sample_generator ::
  "(nat \<Rightarrow> jsonschema \<Rightarrow> string \<Rightarrow> string + string) \<Rightarrow> component list \<Rightarrow> generator" where
  "sample_generator compiler schemas =
     new_generator None (Some []) None pascal_of_spec compiler schemas"

subsection \<open>Reading the output\<close>

text \<open>The definitions of a shared kind among the entries of \<open>#typeDefsFileStrings\<close>.\<close>

definition shared_definitions :: "gen_state \<Rightarrow> string \<Rightarrow> string list" where
  "shared_definitions st k =
     map snd (filter (\<lambda>entry. fst entry = SharedType k) (typeDefsFileStrings st))"

text \<open>
  What the registry guarantees at every point of a run: a kind has no more definitions in
  the output than its flag was set, its flag was set at most once, and it is true
  once it was set.
\<close>

definition registry_invariant :: "gen_state \<Rightarrow> bool" where
  "registry_invariant st =
     (\<forall>k. length (shared_definitions st k) \<le> count_list (registrySets st) k
          \<and> count_list (registrySets st) k \<le> 1
          \<and> (k \<in> set (registrySets st) \<longrightarrow> hasTypeBeenGenerated st k = Some True))"

text \<open>
  The keys one iteration of the loop of \<open>#typeMapper\<close> may assign on \<open>parseObj\<close>: none for
  a tab marker, the keys of the fragment for a custom element, the schema key otherwise.
\<close>

definition assigned_keys :: "generator \<Rightarrow> string \<times> field_schema \<Rightarrow> string set" where
  "assigned_keys g entry =
     (if take 4 (fst entry) = ''tab-'' then {}
      else if type (snd entry) = ''custom'' then
        (case customTypeParser g of
           Some parser \<Rightarrow>
             (case parser (fst entry) (snd entry) of
                Inl e \<Rightarrow> {}
              | Inr fragment \<Rightarrow> set (map fst fragment))
         | None \<Rightarrow> {})
      else {fst entry})"

text \<open>A component without shared fields, and a compiler that rejects only this component.\<close>

definition memo :: component where
  "memo = \<lparr>name = ''memo'', component_group_uuid = None,
     schema = [(''body'', field ''text'')]\<rparr>"

definition picky_compile :: "nat \<Rightarrow> jsonschema \<Rightarrow> string \<Rightarrow> string + string" where
  "picky_compile n sch nm = (if nm = ''memo'' then Inl ''boom'' else Inr (''export type '' @ nm))"

text \<open>
  A component with a required custom field, and a custom parser that answers every field
  with two properties of its own.
\<close>

definition venue :: component where
  "venue = \<lparr>name = ''venue'', component_group_uuid = None,
     schema = [(''label'', field ''text''),
               (''location'', (field ''custom'')\<lparr>required := Some True\<rparr>)]\<rparr>"

definition sample_parser :: custom_type_parser where
  "sample_parser fieldKey el =
     Inr [(fieldKey @ ''_lat'', CustomProperty ''{ \"type\": \"number\" }''),
          (fieldKey @ ''_lng'', CustomProperty ''{ \"type\": \"number\" }'')]"

section \<open>Verified properties\<close>

subsection \<open>Unfolding the sample inputs\<close>

lemmas sample_defs = sample_generator_def new_generator_def
  generateComponentGroupsAndComponentNamesFromJSONSchemas_def add_component_def set_add_def
  truthy_string_def truthy_def teaser_def grid_def shadow_def field_def
  accepting_compile_def rejecting_compile_def flaky_compile_def memo_def picky_compile_def
  venue_def sample_parser_def

lemmas pascal_defs = pascal_of_spec_def is_alphanumeric_def lower_chars_def upper_chars_def
  capitalize_def upper_char_def getBlokTypeName_def nullish_empty_def template_def

subsection \<open>Plain objects\<close>

lemmas object_defs = object_assign_def set_property_def array_index_def digit_value_def

lemma set_insert_by_index: "set (insert_by_index n e xs) = insert e (set xs)"
  by (induction xs) (auto split: option.splits)

lemma distinct_insert_by_index:
  "distinct (map fst xs) \<Longrightarrow> fst e \<notin> set (map fst xs) \<Longrightarrow>
   distinct (map fst (insert_by_index n e xs))"
  by (induction xs) (auto simp: set_insert_by_index split: option.splits)

lemma map_of_insert_by_index:
  "fst e \<notin> set (map fst xs) \<Longrightarrow>
   map_of (insert_by_index n e xs) = (map_of xs)(fst e \<mapsto> snd e)"
proof (induction xs)
  case Nil
  then show ?case by (cases e) simp
next
  case (Cons x xs)
  then show ?case
    by (cases e; cases x) (auto simp: fun_upd_twist split: option.splits)
qed

lemma map_of_snoc:
  "k \<notin> set (map fst obj) \<Longrightarrow> map_of (obj @ [(k, v)]) = (map_of obj)(k \<mapsto> v)"
proof -
  assume "k \<notin> set (map fst obj)"
  then have "map_of obj k = None"
    by (simp add: map_of_eq_None_iff)
  then show ?thesis
    by (auto simp: fun_eq_iff map_add_def split: option.splits)
qed

lemma distinct_set_property:
  "distinct (map fst obj) \<Longrightarrow> distinct (map fst (set_property obj k v))"
  by (auto simp: set_property_def distinct_update distinct_insert_by_index
      split: option.splits)

lemma map_of_set_property:
  "map_of (set_property obj k v) = (if k = ''__proto__'' then map_of obj else (map_of obj)(k \<mapsto> v))"
proof (cases "k = ''__proto__''")
  case True
  then show ?thesis by (simp add: set_property_def)
next
  case False
  show ?thesis
  proof (cases "k \<in> set (map fst obj)")
    case True
    then show ?thesis
      using False by (simp add: set_property_def update_conv')
  next
    case notin: False
    show ?thesis
    proof (cases "array_index k")
      case None
      then show ?thesis
        using False notin map_of_snoc[OF notin, of v] by (simp add: set_property_def)
    next
      case (Some n)
      then show ?thesis
        using False notin map_of_insert_by_index[of "(k, v)" obj n]
        by (simp add: set_property_def)
    qed
  qed
qed

lemma keys_set_property:
  "set (map fst (set_property obj k v))
     = (if k = ''__proto__'' then set (map fst obj) else insert k (set (map fst obj)))"
proof -
  have "dom (map_of (set_property obj k v))
     = (if k = ''__proto__'' then dom (map_of obj) else insert k (dom (map_of obj)))"
    by (simp add: map_of_set_property)
  then show ?thesis
    by (simp add: dom_map_of_conv_image_fst)
qed

lemma set_property_empty:
  "set_property [] k v = (if k = ''__proto__'' then [] else [(k, v)])"
  by (simp add: set_property_def split: option.splits)

lemma object_assign_single:
  "object_assign parseObj (set_property [] k v) = set_property parseObj k v"
  by (simp add: object_assign_def set_property_empty) (simp add: set_property_def)

lemma distinct_object_assign:
  "distinct (map fst target) \<Longrightarrow> distinct (map fst (object_assign target src))"
  unfolding object_assign_def
  by (induction src arbitrary: target) (auto simp: distinct_set_property)

lemma map_of_object_assign:
  "map_of (object_assign target src)
     = map_of target ++ map_of (rev (filter (\<lambda>entry. fst entry \<noteq> ''__proto__'') src))"
  unfolding object_assign_def
proof (induction src arbitrary: target)
  case Nil
  then show ?case by simp
next
  case (Cons entry src)
  obtain k v where entry: "entry = (k, v)" by (cases entry)
  have step: "map_of (foldl (\<lambda>acc (k, v). set_property acc k v) target (entry # src))
        = map_of (set_property target k v)
          ++ map_of (rev (filter (\<lambda>entry. fst entry \<noteq> ''__proto__'') src))"
    using Cons.IH[of "set_property target k v"] entry by simp
  show ?case
  proof (cases "k = ''__proto__''")
    case True
    then show ?thesis
      using step entry by (simp add: map_of_set_property)
  next
    case False
    have "map_of (set_property target k v) = map_of target ++ [k \<mapsto> v]"
      using False by (simp add: map_of_set_property)
    then show ?thesis
      using step entry False by simp
  qed
qed

subsection \<open>The group index\<close>

lemma names_foldl:
  "set (snd (foldl add_component acc cs)) = set (snd acc) \<union> name ` set cs"
  by (induction cs arbitrary: acc) (auto simp: add_component_def set_add_def Let_def)

lemma names_distinct:
  "distinct (snd acc) \<Longrightarrow> distinct (snd (foldl add_component acc cs))"
  by (induction cs arbitrary: acc) (auto simp: add_component_def set_add_def Let_def)

lemma bloks_not_autogenerated: "''bloks'' \<notin> set autogeneratedPropertyTypes"
  by (simp add: autogeneratedPropertyTypes_def)

subsection \<open>Bloks fields without restrictions\<close>

text \<open>
  C4. A bloks element whose \<open>restrict_components\<close> is false or absent gets, as its
  \<open>tsType\<close>, the array over the union of the formatted names of all the components of
  the run (the state is not touched); and the names of the index are exactly the names of
  the components given to the constructor, whether or not they have a group, so the
  owner of the field is among them.
\<close>

theorem unrestricted_bloks_all_components:
  assumes "type el = ''bloks''" and "restrict_components el \<noteq> Some True"
    and "g = new_generator prefix suffix parser pascal compiler schemas"
  shows "typeMapperField g el st =
           ((parseBlokSchemaProperty g el)\<lparr>tsType := Some
              (''('' @ join '' | '' (map (getBlokTypeName g) (componentNames g)) @ '')[]'')\<rparr>, st)
         \<and> set (componentNames g) = name ` set schemas
         \<and> distinct (componentNames g)"
proof -
  have "typeMapperField g el st =
           ((parseBlokSchemaProperty g el)\<lparr>tsType := Some
              (''('' @ join '' | '' (map (getBlokTypeName g) (componentNames g)) @ '')[]'')\<rparr>, st)"
    using assms(1,2) bloks_not_autogenerated
    by (simp add: typeMapperField_def bloksTsType_def truthy_def Let_def)
  moreover have "set (componentNames g) = name ` set schemas"
    using assms(3) names_foldl[of "([], [])" schemas]
    by (simp add: new_generator_def generateComponentGroupsAndComponentNamesFromJSONSchemas_def
        Let_def)
  moreover have "distinct (componentNames g)"
    using assms(3) names_distinct[of "([], [])" schemas]
    by (simp add: new_generator_def generateComponentGroupsAndComponentNamesFromJSONSchemas_def
        Let_def)
  ultimately show ?thesis by simp
qed

theorem unrestricted_bloks_witness:
  "type (field ''bloks'') = ''bloks'' \<and> restrict_components (field ''bloks'') \<noteq> Some True
   \<and> tsType (fst (typeMapperField (sample_generator accepting_compile [teaser, grid])
                    (field ''bloks'') initial_state)) = Some ''(Teaser | Grid)[]''
   \<and> ''grid'' \<in> set (componentNames (sample_generator accepting_compile [teaser, grid]))
   \<and> ''teaser'' \<in> set (componentNames (sample_generator accepting_compile [teaser, grid]))"
  using unrestricted_bloks_all_components[of "field ''bloks''"
      "sample_generator accepting_compile [teaser, grid]"
      None "Some []" None pascal_of_spec accepting_compile "[teaser, grid]" initial_state]
  by (simp add: sample_defs pascal_defs)

subsection \<open>Multilink fields\<close>

lemma multilink_autogenerated: "''multilink'' \<in> set autogeneratedPropertyTypes"
  by (simp add: autogeneratedPropertyTypes_def)

text \<open>
  C5. For a multilink element the \<open>tsType\<close> stored under its key excludes the email
  shape unless \<open>email_link_type\<close> is true and the asset shape unless
  \<open>asset_link_type\<close> is true: with neither flag true it is the base name wrapped with
  both exclusions, with both true it is the base name itself.
\<close>

theorem multilink_exclusions:
  assumes "type el = ''multilink''"
  shows "\<exists>t. tsType (fst (typeMapperField g el st)) = Some t
    \<and> (email_link_type el \<noteq> Some True \<and> asset_link_type el \<noteq> Some True \<longrightarrow>
         t = ''Exclude<'' @ getBlokTypeName g ''multilink''
               @ '', { linktype?: \"email\" } | { linktype?: \"asset\" }>'')
    \<and> (email_link_type el \<noteq> Some True \<and> asset_link_type el = Some True \<longrightarrow>
         t = ''Exclude<'' @ getBlokTypeName g ''multilink'' @ '', { linktype?: \"email\" }>'')
    \<and> (email_link_type el = Some True \<and> asset_link_type el \<noteq> Some True \<longrightarrow>
         t = ''Exclude<'' @ getBlokTypeName g ''multilink'' @ '', { linktype?: \"asset\" }>'')
    \<and> (email_link_type el = Some True \<and> asset_link_type el = Some True \<longrightarrow>
         t = getBlokTypeName g ''multilink'')"
  using assms multilink_autogenerated
  by (simp add: typeMapperField_def multilinkTsType_def truthy_def Let_def split_def)

theorem multilink_exclusions_witness:
  "type (field ''multilink'') = ''multilink''
   \<and> tsType (fst (typeMapperField (sample_generator accepting_compile [teaser])
         (field ''multilink'') initial_state))
       = Some ''Exclude<Multilink, { linktype?: \"email\" } | { linktype?: \"asset\" }>''
   \<and> tsType (fst (typeMapperField (sample_generator accepting_compile [teaser])
         ((field ''multilink'')\<lparr>email_link_type := Some True, asset_link_type := Some True\<rparr>)
         initial_state))
       = Some ''Multilink''"
  using multilink_exclusions[of "field ''multilink''"
      "sample_generator accepting_compile [teaser]" initial_state]
    multilink_exclusions[of
      "(field ''multilink'')\<lparr>email_link_type := Some True, asset_link_type := Some True\<rparr>"
      "sample_generator accepting_compile [teaser]" initial_state]
  by (auto simp add: sample_defs pascal_defs)

subsection \<open>The field mapping is an object\<close>

lemma typeMapperStep_distinct:
  assumes "distinct (map fst (fst acc))" and "typeMapperStep g acc entry = Inr acc'"
  shows "distinct (map fst (fst acc'))"
  using assms
  by (auto simp: typeMapperStep_def Let_def split_def distinct_object_assign
      split: if_splits option.splits sum.splits)

lemma typeMapperLoop_distinct:
  "distinct (map fst (fst acc)) \<Longrightarrow> typeMapperLoop g entries acc = Inr acc' \<Longrightarrow>
   distinct (map fst (fst acc'))"
proof (induction entries arbitrary: acc)
  case Nil
  then show ?case by simp
next
  case (Cons entry entries)
  then show ?case
    by (auto split: sum.splits dest: typeMapperStep_distinct)
qed

lemma typeMapper_distinct:
  "typeMapper g entries st = Inr (props, st1) \<Longrightarrow> distinct (map fst props)"
  using typeMapperLoop_distinct[of "([], st)" g entries "(props, st1)"]
  by (simp add: typeMapper_def)

subsection \<open>The two system fields\<close>

text \<open>
  C10. Whatever field mapping \<open>#typeMapper\<close> returned for a component, the schema that
  \<open>generateTSFile\<close> then hands to the compiler (under the component's name) has
  \<open>_uid\<close> as the plain string type and \<open>component\<close> as the string type whose enum is
  the component's own name; each key occurs once, so a field of the component that is
  named \<open>_uid\<close> or \<open>component\<close> has been overwritten.
\<close>

theorem system_fields_overwrite:
  assumes "typeMapper g (schema c) st = Inr (props, st1)"
  shows "compileCalls (final_state (generateComponent g c st))
           = compileCalls st1 @ [(ComponentSchema (componentObject g c props), name c)]
    \<and> map_of (properties (componentObject g c props)) ''_uid''
        = Some (Annotation (no_annotation\<lparr>ann_type := Some (Single ''string'')\<rparr>))
    \<and> map_of (properties (componentObject g c props)) ''component''
        = Some (Annotation (no_annotation\<lparr>ann_type := Some (Single ''string''),
                                             ann_enum := Some [name c]\<rparr>))
    \<and> distinct (map fst (properties (componentObject g c props)))"
proof -
  have "compileCalls (final_state (generateComponent g c st))
           = compileCalls st1 @ [(ComponentSchema (componentObject g c props), name c)]"
    using assms
    by (simp add: generateComponent_def call_compile_def final_state_def push_def
        split: sum.splits)
  moreover have "distinct (map fst props)"
    using assms by (rule typeMapper_distinct)
  ultimately show ?thesis
    by (simp add: componentObject_def map_of_set_property distinct_set_property)
qed

theorem system_fields_overwrite_witness:
  "typeMapper (sample_generator accepting_compile [shadow]) (schema shadow) initial_state
     = Inr ([(''_uid'', Annotation (no_annotation\<lparr>ann_type := Some (Single ''boolean'')\<rparr>)),
             (''component'', Annotation (no_annotation\<lparr>ann_type := Some (Single ''array''),
                                            tsType := Some ''(Shadow)[]''\<rparr>))],
            initial_state)
   \<and> map_of (properties (componentObject (sample_generator accepting_compile [shadow]) shadow
        [(''_uid'', Annotation (no_annotation\<lparr>ann_type := Some (Single ''boolean'')\<rparr>)),
         (''component'', Annotation (no_annotation\<lparr>ann_type := Some (Single ''array''),
                                            tsType := Some ''(Shadow)[]''\<rparr>))])) ''_uid''
       = Some (Annotation (no_annotation\<lparr>ann_type := Some (Single ''string'')\<rparr>))
   \<and> map_of (properties (componentObject (sample_generator accepting_compile [shadow]) shadow
        [(''_uid'', Annotation (no_annotation\<lparr>ann_type := Some (Single ''boolean'')\<rparr>)),
         (''component'', Annotation (no_annotation\<lparr>ann_type := Some (Single ''array''),
                                            tsType := Some ''(Shadow)[]''\<rparr>))])) ''component''
       = Some (Annotation (no_annotation\<lparr>ann_type := Some (Single ''string''),
                                             ann_enum := Some [''shadow'']\<rparr>))"
proof -
  have run: "typeMapper (sample_generator accepting_compile [shadow]) (schema shadow) initial_state
     = Inr ([(''_uid'', Annotation (no_annotation\<lparr>ann_type := Some (Single ''boolean'')\<rparr>)),
             (''component'', Annotation (no_annotation\<lparr>ann_type := Some (Single ''array''),
                                            tsType := Some ''(Shadow)[]''\<rparr>))],
            initial_state)"
    by (simp add: typeMapper_def typeMapperStep_def typeMapperField_def
        parseBlokSchemaProperty_def autogeneratedPropertyTypes_def option_values_def
        fallback_type_def bloksTsType_def object_defs no_annotation_def
        sample_defs pascal_defs)
  have nm: "name shadow = ''shadow''"
    by (simp add: shadow_def)
  show ?thesis
    using run system_fields_overwrite[OF run] by (simp add: nm)
qed

subsection \<open>Fields that reference stories\<close>

text \<open>
  C6, as stated, fails: an option element whose source is \<open>internal_stories\<close> and whose
  \<open>filter_content_type\<close> is the empty list is resolved by the stories rule all the same
  (the test of the source is on the presence of the list), to the string fallback alone,
  and that is the annotation \<open>#typeMapper\<close> keeps for the field.
\<close>

theorem internal_stories_empty_filter:
  "source ((field ''option'')\<lparr>source := Some ''internal_stories'',
                               filter_content_type := Some []\<rparr>) = Some ''internal_stories''
   \<and> filter_content_type ((field ''option'')\<lparr>source := Some ''internal_stories'',
                               filter_content_type := Some []\<rparr>) = Some []
   \<and> parseBlokSchemaProperty (sample_generator accepting_compile [teaser])
        ((field ''option'')\<lparr>source := Some ''internal_stories'',
                              filter_content_type := Some []\<rparr>)
       = no_annotation\<lparr>tsType := Some ''( | string )''\<rparr>
   \<and> typeMapperField (sample_generator accepting_compile [teaser])
        ((field ''option'')\<lparr>source := Some ''internal_stories'',
                              filter_content_type := Some []\<rparr>) initial_state
       = (no_annotation\<lparr>tsType := Some ''( | string )''\<rparr>, initial_state)"
  by (simp add: typeMapperField_def parseBlokSchemaProperty_def autogeneratedPropertyTypes_def
      field_def)

text \<open>
  C6, amended. \<open>#parseBlokSchemaProperty\<close> returns a \<open>tsType\<close> exactly when the
  element is not of one of the five shared kinds, its source is \<open>internal_stories\<close> and
  \<open>filter_content_type\<close> is present (empty or not); the result is then the union of the
  story type around the formatted name of each listed content type and of
  \<open>string\<close>, followed by \<open>[]\<close> exactly when the element is of type \<open>options\<close>.
  For an element that is neither of a shared kind nor a bloks element, \<open>#typeMapper\<close>
  keeps this result unchanged and touches no state; and when the element is not a custom
  field either and its key is not a tab marker, the iteration of the loop assigns the
  result to the schema key of the field mapping, where it is then found (a key
  \<open>__proto__\<close> apart, which creates no property).
\<close>

theorem internal_stories_rule:
  "(tsType (parseBlokSchemaProperty g el) \<noteq> None)
     = (type el \<notin> set autogeneratedPropertyTypes \<and> source el = Some ''internal_stories''
        \<and> filter_content_type el \<noteq> None)
   \<and> (type el \<notin> set autogeneratedPropertyTypes \<and> source el = Some ''internal_stories'' \<longrightarrow>
       (\<forall>contentTypes. filter_content_type el = Some contentTypes \<longrightarrow>
          parseBlokSchemaProperty g el = no_annotation\<lparr>tsType := Some
            (''('' @ join '' | ''
                      (map (\<lambda>t. ''ISbStoryData<'' @ getBlokTypeName g t @ ''>'') contentTypes)
             @ '' | string )'' @ (if type el = ''options'' then ''[]'' else []))\<rparr>))
   \<and> (type el \<notin> set autogeneratedPropertyTypes \<and> type el \<noteq> ''bloks'' \<longrightarrow>
        typeMapperField g el st = (parseBlokSchemaProperty g el, st))
   \<and> (type el \<notin> set autogeneratedPropertyTypes \<and> type el \<noteq> ''bloks''
        \<and> type el \<noteq> ''custom'' \<and> take 4 schemaKey \<noteq> ''tab-'' \<longrightarrow>
        typeMapperStep g (parseObj, st) (schemaKey, el)
          = Inr (set_property parseObj schemaKey (Annotation (parseBlokSchemaProperty g el)), st)
        \<and> (schemaKey \<noteq> ''__proto__'' \<longrightarrow>
             map_of (set_property parseObj schemaKey
                       (Annotation (parseBlokSchemaProperty g el))) schemaKey
               = Some (Annotation (parseBlokSchemaProperty g el))))"
proof -
  have story: "getStoryType g = (\<lambda>t. ''ISbStoryData<'' @ getBlokTypeName g t @ ''>'')"
    by (rule ext) (simp add: getStoryType_def STORY_DATATYPE_NAME_def)
  have parse: "(tsType (parseBlokSchemaProperty g el) \<noteq> None)
     = (type el \<notin> set autogeneratedPropertyTypes \<and> source el = Some ''internal_stories''
        \<and> filter_content_type el \<noteq> None)
   \<and> (type el \<notin> set autogeneratedPropertyTypes \<and> source el = Some ''internal_stories'' \<longrightarrow>
       (\<forall>contentTypes. filter_content_type el = Some contentTypes \<longrightarrow>
          parseBlokSchemaProperty g el = no_annotation\<lparr>tsType := Some
            (''('' @ join '' | ''
                      (map (\<lambda>t. ''ISbStoryData<'' @ getBlokTypeName g t @ ''>'') contentTypes)
             @ '' | string )'' @ (if type el = ''options'' then ''[]'' else []))\<rparr>))"
    unfolding story[symmetric]
    by (auto simp: parseBlokSchemaProperty_def no_annotation_def Let_def
        split: option.splits)
  have fld: "typeMapperField g el st = (parseBlokSchemaProperty g el, st)"
    if "type el \<notin> set autogeneratedPropertyTypes" "type el \<noteq> ''bloks''"
    using that multilink_autogenerated by (auto simp: typeMapperField_def Let_def)
  have stp: "typeMapperStep g (parseObj, st) (schemaKey, el)
          = Inr (set_property parseObj schemaKey (Annotation (parseBlokSchemaProperty g el)), st)"
    if "type el \<notin> set autogeneratedPropertyTypes" "type el \<noteq> ''bloks''"
      "type el \<noteq> ''custom''" "take 4 schemaKey \<noteq> ''tab-''"
    using that fld[OF that(1,2)]
    by (simp add: typeMapperStep_def Let_def object_assign_single)
  have look: "map_of (set_property parseObj schemaKey
                       (Annotation (parseBlokSchemaProperty g el))) schemaKey
               = Some (Annotation (parseBlokSchemaProperty g el))"
    if "schemaKey \<noteq> ''__proto__''"
    using that by (simp add: map_of_set_property)
  from parse fld stp look show ?thesis
    by blast
qed

theorem internal_stories_rule_witness:
  "parseBlokSchemaProperty (sample_generator accepting_compile [teaser])
      ((field ''options'')\<lparr>source := Some ''internal_stories'',
                             filter_content_type := Some [''page'', ''blog_post'']\<rparr>)
     = no_annotation\<lparr>tsType := Some
         ''(ISbStoryData<Page> | ISbStoryData<BlogPost> | string )[]''\<rparr>
   \<and> parseBlokSchemaProperty (sample_generator accepting_compile [teaser])
      ((field ''option'')\<lparr>source := Some ''internal_stories'',
                            filter_content_type := Some [''page'']\<rparr>)
     = no_annotation\<lparr>tsType := Some ''(ISbStoryData<Page> | string )''\<rparr>
   \<and> tsType (parseBlokSchemaProperty (sample_generator accepting_compile [teaser])
      ((field ''option'')\<lparr>source := Some ''internal_stories''\<rparr>)) = None
   \<and> typeMapperStep (sample_generator accepting_compile [teaser]) ([], initial_state)
        (''related'', (field ''options'')\<lparr>source := Some ''internal_stories'',
                             filter_content_type := Some [''page'', ''blog_post'']\<rparr>)
     = Inr ([(''related'', Annotation (no_annotation\<lparr>tsType := Some
               ''(ISbStoryData<Page> | ISbStoryData<BlogPost> | string )[]''\<rparr>))],
            initial_state)"
  using internal_stories_rule[of "sample_generator accepting_compile [teaser]"
      "(field ''options'')\<lparr>source := Some ''internal_stories'',
                            filter_content_type := Some [''page'', ''blog_post'']\<rparr>"
      initial_state "''related''" "[]"]
    internal_stories_rule[of "sample_generator accepting_compile [teaser]"
      "(field ''option'')\<lparr>source := Some ''internal_stories'',
                            filter_content_type := Some [''page'']\<rparr>"
      initial_state "''related''" "[]"]
    internal_stories_rule[of "sample_generator accepting_compile [teaser]"
      "(field ''option'')\<lparr>source := Some ''internal_stories''\<rparr>"
      initial_state "''related''" "[]"]
  by (simp add: sample_defs pascal_defs autogeneratedPropertyTypes_def set_property_def
      array_index_def digit_value_def)

subsection \<open>Bloks fields with restrictions\<close>

lemma group_elements_foldl:
  "foldl (\<lambda>bloks groupUUID.
              case map_of (componentGroups g) groupUUID of
                Some bloksInGroup \<Rightarrow> bloks @ map (getBlokTypeName g) bloksInGroup
              | None \<Rightarrow> bloks) acc whitelist
   = acc @ concat (map (\<lambda>u. case map_of (componentGroups g) u of
                               Some ms \<Rightarrow> map (getBlokTypeName g) ms | None \<Rightarrow> []) whitelist)"
  by (induction whitelist arbitrary: acc) (auto split: option.splits)

lemma no_group_elements:
  "(currentGroupElements g whitelist = []) =
   (\<forall>u \<in> set whitelist. map_of (componentGroups g) u = None
                       \<or> map_of (componentGroups g) u = Some [])"
proof -
  have "(case map_of (componentGroups g) u of
           Some ms \<Rightarrow> map (getBlokTypeName g) ms | None \<Rightarrow> []) = []
        \<longleftrightarrow> map_of (componentGroups g) u = None \<or> map_of (componentGroups g) u = Some []"
    for u
    by (cases "map_of (componentGroups g) u") simp_all
  then show ?thesis
    unfolding currentGroupElements_def group_elements_foldl by simp
qed

text \<open>
  C2, as stated, fails: a bloks element restricted by groups with an empty whitelist, and
  one restricted by list with no whitelist at all, keep the plain array annotation and get
  no \<open>tsType\<close>; neither is resolved to \<open>never[]\<close>.
\<close>

theorem restricted_bloks_empty_whitelist:
  "typeMapperField (sample_generator accepting_compile [teaser, grid])
      ((field ''bloks'')\<lparr>restrict_components := Some True, restrict_type := Some ''groups'',
                           component_group_whitelist := Some []\<rparr>) initial_state
     = (no_annotation\<lparr>ann_type := Some (Single ''array'')\<rparr>, initial_state)
   \<and> typeMapperField (sample_generator accepting_compile [teaser, grid])
      ((field ''bloks'')\<lparr>restrict_components := Some True\<rparr>) initial_state
     = (no_annotation\<lparr>ann_type := Some (Single ''array'')\<rparr>, initial_state)"
  by (simp add: typeMapperField_def parseBlokSchemaProperty_def bloksTsType_def
      autogeneratedPropertyTypes_def truthy_def field_def option_values_def fallback_type_def)

text \<open>
  C2, amended. For a bloks element with \<open>restrict_components\<close> true: when the list
  that applies (\<open>component_group_whitelist\<close> under the restriction by groups,
  \<open>component_whitelist\<close> otherwise) is missing or empty, \<open>#typeMapper\<close> stores what
  \<open>#parseBlokSchemaProperty\<close> returned, which is the plain array annotation unless the
  stories rule applied, and leaves the state alone; when a non-empty group whitelist
  names no group that has a member, the \<open>tsType\<close> is \<open>never[]\<close>; and in every case the
  iteration of the loop returns normally.
\<close>

theorem restricted_bloks_degenerate:
  assumes "type el = ''bloks''" and "restrict_components el = Some True"
  shows "((if restrict_type el = Some ''groups'' then component_group_whitelist el
           else component_whitelist el) \<in> {None, Some []} \<longrightarrow>
            typeMapperField g el st = (parseBlokSchemaProperty g el, st)
            \<and> (\<not> (source el = Some ''internal_stories'' \<and> filter_content_type el \<noteq> None) \<longrightarrow>
                 parseBlokSchemaProperty g el
                   = no_annotation\<lparr>ann_type := Some (Single ''array'')\<rparr>))
    \<and> (restrict_type el = Some ''groups'' \<longrightarrow>
         (\<forall>whitelist. component_group_whitelist el = Some whitelist \<and> whitelist \<noteq> []
            \<and> (\<forall>u \<in> set whitelist. map_of (componentGroups g) u = None
                                   \<or> map_of (componentGroups g) u = Some []) \<longrightarrow>
            typeMapperField g el st
              = ((parseBlokSchemaProperty g el)\<lparr>tsType := Some ''never[]''\<rparr>, st)))
    \<and> (\<exists>r. typeMapperStep g (parseObj, st) (key, el) = Inr r)"
proof -
  have a: "(if restrict_type el = Some ''groups'' then component_group_whitelist el
           else component_whitelist el) \<in> {None, Some []} \<Longrightarrow>
            typeMapperField g el st = (parseBlokSchemaProperty g el, st)"
    using assms bloks_not_autogenerated
    by (auto simp: typeMapperField_def bloksTsType_def truthy_def Let_def split: if_splits)
  have b: "\<not> (source el = Some ''internal_stories'' \<and> filter_content_type el \<noteq> None) \<Longrightarrow>
                 parseBlokSchemaProperty g el
                   = no_annotation\<lparr>ann_type := Some (Single ''array'')\<rparr>"
    using assms(1) bloks_not_autogenerated
    by (auto simp: parseBlokSchemaProperty_def Let_def split: option.splits)
  have c: "typeMapperField g el st
              = ((parseBlokSchemaProperty g el)\<lparr>tsType := Some ''never[]''\<rparr>, st)"
    if "restrict_type el = Some ''groups''" "component_group_whitelist el = Some whitelist"
      "whitelist \<noteq> []"
      "\<forall>u \<in> set whitelist. map_of (componentGroups g) u = None
                                   \<or> map_of (componentGroups g) u = Some []"
    for whitelist
  proof -
    have "currentGroupElements g whitelist = []"
      using that(4) by (simp add: no_group_elements)
    then show ?thesis
      using assms that(1-3) bloks_not_autogenerated
      by (simp add: typeMapperField_def bloksTsType_def truthy_def Let_def)
  qed
  have d: "\<exists>r. typeMapperStep g (parseObj, st) (key, el) = Inr r"
    using assms(1) by (simp add: typeMapperStep_def Let_def split_def)
  from a b c d show ?thesis by blast
qed

theorem restricted_bloks_degenerate_witness:
  "typeMapperField (sample_generator accepting_compile [teaser, grid])
      ((field ''bloks'')\<lparr>restrict_components := Some True, restrict_type := Some ''groups'',
                           component_group_whitelist := Some [''uuid-404'']\<rparr>) initial_state
     = (no_annotation\<lparr>ann_type := Some (Single ''array''), tsType := Some ''never[]''\<rparr>,
        initial_state)
   \<and> typeMapperField (sample_generator accepting_compile [teaser, grid])
      ((field ''bloks'')\<lparr>restrict_components := Some True,
                           component_whitelist := Some []\<rparr>) initial_state
     = (no_annotation\<lparr>ann_type := Some (Single ''array'')\<rparr>, initial_state)"
  using restricted_bloks_degenerate[of
      "(field ''bloks'')\<lparr>restrict_components := Some True, restrict_type := Some ''groups'',
                           component_group_whitelist := Some [''uuid-404'']\<rparr>"
      "sample_generator accepting_compile [teaser, grid]" initial_state "[]" "''items''"]
    restricted_bloks_degenerate[of
      "(field ''bloks'')\<lparr>restrict_components := Some True,
                           component_whitelist := Some []\<rparr>"
      "sample_generator accepting_compile [teaser, grid]" initial_state "[]" "''items''"]
  by (simp add: sample_defs parseBlokSchemaProperty_def autogeneratedPropertyTypes_def
      option_values_def fallback_type_def)

subsection \<open>The registry of shared types\<close>

lemma registry_invariant_initial: "registry_invariant initial_state"
  by (simp add: registry_invariant_def initial_state_def shared_definitions_def)

lemma generateType_effect:
  assumes "generateType g k t st = (r, st')"
  shows "typeDefsFileStrings st' = typeDefsFileStrings st
    \<and> (case r of
          None \<Rightarrow> registrySets st' = registrySets st
                   \<and> hasTypeBeenGenerated st' = hasTypeBeenGenerated st
        | Some ts \<Rightarrow> hasTypeBeenGenerated st k \<noteq> Some True
                   \<and> registrySets st' = registrySets st @ [k]
                   \<and> hasTypeBeenGenerated st' = (hasTypeBeenGenerated st)(k \<mapsto> True))"
  using assms
  by (auto simp: generateType_def generateAutogeneratedType_def generateTypeString_def
      call_compile_def split: if_splits option.splits sum.splits prod.splits)

lemma registry_invariant_set:
  assumes "registry_invariant st" and "hasTypeBeenGenerated st k \<noteq> Some True"
    and "registrySets st' = registrySets st @ [k]"
    and "hasTypeBeenGenerated st' = (hasTypeBeenGenerated st)(k \<mapsto> True)"
    and "typeDefsFileStrings st' = typeDefsFileStrings st @ extra"
    and "extra = [] \<or> extra = [(SharedType k, ts)]"
  shows "registry_invariant st'"
proof -
  have notin: "k \<notin> set (registrySets st)"
    using assms(1,2) by (auto simp: registry_invariant_def)
  then have zero: "count_list (registrySets st) k = 0"
    by (simp add: count_list_0_iff)
  show ?thesis
    unfolding registry_invariant_def
  proof (intro allI)
    fix j
    have inv: "length (shared_definitions st j) \<le> count_list (registrySets st) j"
      "count_list (registrySets st) j \<le> 1"
      "j \<in> set (registrySets st) \<longrightarrow> hasTypeBeenGenerated st j = Some True"
      using assms(1) by (auto simp: registry_invariant_def)
    show "length (shared_definitions st' j) \<le> count_list (registrySets st') j
          \<and> count_list (registrySets st') j \<le> 1
          \<and> (j \<in> set (registrySets st') \<longrightarrow> hasTypeBeenGenerated st' j = Some True)"
      using inv zero assms(3-6)
      by (cases "j = k") (auto simp: shared_definitions_def)
  qed
qed

lemma registry_invariant_frame:
  assumes "registry_invariant st" and "registrySets st' = registrySets st"
    and "hasTypeBeenGenerated st' = hasTypeBeenGenerated st"
    and "\<And>k. shared_definitions st' k = shared_definitions st k"
  shows "registry_invariant st'"
  using assms by (simp add: registry_invariant_def)

lemma typeMapperField_invariant:
  assumes "registry_invariant st"
  shows "registry_invariant (snd (typeMapperField g el st))"
proof (cases "type el \<in> set autogeneratedPropertyTypes")
  case False
  then have "snd (typeMapperField g el st) = st"
    by (simp add: typeMapperField_def Let_def)
  then show ?thesis using assms by simp
next
  case True
  obtain r st' where gt: "generateType g (type el) (getBlokTypeName g (type el)) st = (r, st')"
    by (cases "generateType g (type el) (getBlokTypeName g (type el)) st") auto
  note eff = generateType_effect[OF gt]
  have snd_eq: "snd (typeMapperField g el st) =
      (case r of Some s \<Rightarrow> (if s \<noteq> [] then push (SharedType (type el)) s st' else st')
               | None \<Rightarrow> st')"
    using True gt by (simp add: typeMapperField_def Let_def)
  show ?thesis
  proof (cases r)
    case None
    then have "registry_invariant st'"
      using eff assms
      by (intro registry_invariant_frame[OF assms]) (simp_all add: shared_definitions_def)
    then show ?thesis using None snd_eq by simp
  next
    case (Some s)
    show ?thesis
    proof (cases "s = []")
      case True
      have "registry_invariant st'"
        using eff Some
        by (intro registry_invariant_set[OF assms, of "type el" st' "[]"]) simp_all
      then show ?thesis using Some True snd_eq by simp
    next
      case False
      have "registry_invariant (push (SharedType (type el)) s st')"
        using eff Some
        by (intro registry_invariant_set[OF assms, of "type el" _ "[(SharedType (type el), s)]" s])
           (simp_all add: push_def)
      then show ?thesis using Some False snd_eq by simp
    qed
  qed
qed

lemma typeMapperStep_invariant:
  assumes "registry_invariant (snd acc)"
  shows "case typeMapperStep g acc entry of
           Inl (e, st) \<Rightarrow> registry_invariant st
         | Inr (parseObj, st) \<Rightarrow> registry_invariant st"
  using assms typeMapperField_invariant[OF assms, of g "snd entry"]
  by (auto simp: typeMapperStep_def Let_def split_def split: option.splits sum.splits)

lemma typeMapperLoop_invariant:
  "registry_invariant (snd acc) \<Longrightarrow>
   (case typeMapperLoop g entries acc of
      Inl (e, st) \<Rightarrow> registry_invariant st
    | Inr (parseObj, st) \<Rightarrow> registry_invariant st)"
proof (induction entries arbitrary: acc)
  case Nil
  then show ?case by (simp add: split_def)
next
  case (Cons entry entries)
  show ?case
  proof (cases "typeMapperStep g acc entry")
    case (Inl x)
    then show ?thesis
      using typeMapperStep_invariant[OF Cons.prems, of g entry] by simp
  next
    case (Inr acc')
    then have "registry_invariant (snd acc')"
      using typeMapperStep_invariant[OF Cons.prems, of g entry] by (simp add: split_def)
    then show ?thesis
      using Cons.IH[of acc'] Inr by simp
  qed
qed

lemma generateComponent_invariant:
  assumes "registry_invariant st"
  shows "registry_invariant (final_state (generateComponent g c st))"
proof (cases "typeMapper g (schema c) st")
  case (Inl x)
  then show ?thesis
    using typeMapperLoop_invariant[of "([], st)" g "schema c"] assms
    by (simp add: generateComponent_def typeMapper_def final_state_def split_def)
next
  case (Inr r)
  obtain props st1 where r: "r = (props, st1)" by (cases r)
  have inv1: "registry_invariant st1"
    using typeMapperLoop_invariant[of "([], st)" g "schema c"] assms Inr r
    by (simp add: typeMapper_def)
  show ?thesis
  proof (cases "compile g (length (compileCalls st1))
                  (ComponentSchema (componentObject g c props)) (name c)")
    case (Inl e)
    then show ?thesis
      using Inr r
      by (auto simp: generateComponent_def call_compile_def final_state_def
          intro!: registry_invariant_frame[OF inv1] simp: shared_definitions_def)
  next
    case (Inr ts)
    then show ?thesis
      using \<open>typeMapper g (schema c) st = Inr r\<close> r
      by (auto simp: generateComponent_def call_compile_def final_state_def push_def
          intro!: registry_invariant_frame[OF inv1] simp: shared_definitions_def)
  qed
qed

lemma generateLoop_invariant:
  "registry_invariant st \<Longrightarrow> registry_invariant (final_state (generateLoop g cs st))"
proof (induction cs arbitrary: st)
  case Nil
  then show ?case by (simp add: final_state_def)
next
  case (Cons c cs)
  show ?case
  proof (cases "generateComponent g c st")
    case (Inl x)
    then show ?thesis
      using generateComponent_invariant[OF Cons.prems, of g c] by (simp add: final_state_def)
  next
    case (Inr st')
    then have "registry_invariant st'"
      using generateComponent_invariant[OF Cons.prems, of g c] by (simp add: final_state_def)
    then show ?thesis
      using Cons.IH[of st'] Inr by simp
  qed
qed

text \<open>
  C1. In the state a run of \<open>generateTSFile\<close> ends in (or is rejected in), whatever the
  components, the custom parser and the answers of the compiler, and for every kind: the
  output holds at most one definition of the kind, and the flag of the kind was set at
  most once. And in any state in which the flag of a kind is true, \<open>#generateType\<close>
  returns nothing, calls nothing and changes nothing.
\<close>

theorem shared_type_emitted_at_most_once:
  "length (shared_definitions (final_state (generateTSFile g)) k) \<le> 1
   \<and> count_list (registrySets (final_state (generateTSFile g))) k \<le> 1
   \<and> (hasTypeBeenGenerated st k = Some True \<longrightarrow>
        generateType g k title' st = (None, st))"
proof -
  have "registry_invariant (final_state (generateTSFile g))"
    unfolding generateTSFile_def
    by (rule generateLoop_invariant[OF registry_invariant_initial])
  then have "length (shared_definitions (final_state (generateTSFile g)) k)
               \<le> count_list (registrySets (final_state (generateTSFile g))) k"
    and "count_list (registrySets (final_state (generateTSFile g))) k \<le> 1"
    by (simp_all add: registry_invariant_def)
  then show ?thesis
    by (simp add: generateType_def)
qed

lemmas run_defs = generateTSFile_def generateComponent_def typeMapper_def typeMapperStep_def
  typeMapperField_def parseBlokSchemaProperty_def autogeneratedPropertyTypes_def
  option_values_def fallback_type_def bloksTsType_def multilinkTsType_def object_defs
  no_annotation_def generateType_def generateAutogeneratedType_def generateTypeString_def
  getAutogeneratedTypeSchema_def call_compile_def push_def componentObject_def
  requiredFields_def initial_state_def final_state_def STORY_DATATYPE_NAME_def
  Let_def split_def

subsection \<open>A run with two asset fields\<close>

lemma sample_run_two_assets:
  "shared_definitions
     (final_state (generateTSFile (sample_generator accepting_compile [teaser, grid]))) ''asset''
     = [''export type asset'']
   \<and> hasTypeBeenGenerated
     (final_state (generateTSFile (sample_generator accepting_compile [teaser, grid]))) ''asset''
     = Some True"
  by (simp add: run_defs sample_defs pascal_defs shared_definitions_def)

theorem shared_type_emitted_at_most_once_witness:
  "hasTypeBeenGenerated
     (final_state (generateTSFile (sample_generator accepting_compile [teaser, grid]))) ''asset''
     = Some True
   \<and> generateType (sample_generator accepting_compile [teaser, grid]) ''asset'' ''Asset''
       (final_state (generateTSFile (sample_generator accepting_compile [teaser, grid])))
     = (None, final_state (generateTSFile (sample_generator accepting_compile [teaser, grid])))
   \<and> length (shared_definitions
       (final_state (generateTSFile (sample_generator accepting_compile [teaser, grid])))
       ''asset'') = 1"
  using sample_run_two_assets
    shared_type_emitted_at_most_once[of "sample_generator accepting_compile [teaser, grid]"
      "''asset''"
      "final_state (generateTSFile (sample_generator accepting_compile [teaser, grid]))"
      "''Asset''"]
  by simp

subsection \<open>A shared type that fails to render\<close>

lemma generateType_failure:
  assumes "k \<in> set autogeneratedPropertyTypes"
    and "hasTypeBeenGenerated st k \<noteq> Some True"
    and "compile g (length (compileCalls st)) (AutogeneratedSchema k t) k = Inl e"
  shows "generateType g k t st =
     (None, st\<lparr>compileCalls := compileCalls st @ [(AutogeneratedSchema k t, k)],
               console := console st @ [[''Error generating type '' @ k @ '' with title '' @ t, e]]\<rparr>)"
  using assms
  by (simp add: generateType_def generateAutogeneratedType_def generateTypeString_def
      getAutogeneratedTypeSchema_def call_compile_def)

lemma generateType_success:
  assumes "k \<in> set autogeneratedPropertyTypes"
    and "hasTypeBeenGenerated st k \<noteq> Some True"
    and "compile g (length (compileCalls st)) (AutogeneratedSchema k t) k = Inr ts"
  shows "generateType g k t st =
     (Some ts, st\<lparr>compileCalls := compileCalls st @ [(AutogeneratedSchema k t, k)],
                  hasTypeBeenGenerated := (hasTypeBeenGenerated st)(k \<mapsto> True),
                  registrySets := registrySets st @ [k]\<rparr>)"
  using assms
  by (simp add: generateType_def generateAutogeneratedType_def generateTypeString_def
      getAutogeneratedTypeSchema_def call_compile_def)

lemma generateType_attempt:
  assumes "k \<in> set autogeneratedPropertyTypes"
    and "hasTypeBeenGenerated st k \<noteq> Some True"
  shows "compileCalls (snd (generateType g k t st))
           = compileCalls st @ [(AutogeneratedSchema k t, k)]"
  using generateType_failure[OF assms, of g t] generateType_success[OF assms, of g t]
  by (cases "compile g (length (compileCalls st)) (AutogeneratedSchema k t) k") simp_all

lemma typeMapperField_state:
  assumes "type el \<in> set autogeneratedPropertyTypes"
  shows "snd (typeMapperField g el st) =
     (case fst (generateType g (type el) (getBlokTypeName g (type el)) st) of
        Some s \<Rightarrow> (if s \<noteq> [] then push (SharedType (type el)) s
                                    (snd (generateType g (type el) (getBlokTypeName g (type el)) st))
                  else snd (generateType g (type el) (getBlokTypeName g (type el)) st))
      | None \<Rightarrow> snd (generateType g (type el) (getBlokTypeName g (type el)) st))"
  using assms by (simp add: typeMapperField_def Let_def split_def)

lemma typeMapperField_reference:
  assumes "type el \<in> set autogeneratedPropertyTypes"
  shows "fst (typeMapperField g el st) =
     no_annotation\<lparr>ann_type := Some (Single (type el)),
       tsType := Some (if type el = ''multilink'' then multilinkTsType g el
                       else getBlokTypeName g (type el))\<rparr>"
proof -
  have "type el \<noteq> ''bloks''"
    using assms by (auto simp: autogeneratedPropertyTypes_def)
  then show ?thesis
    using assms
    by (simp add: typeMapperField_def parseBlokSchemaProperty_def Let_def split_def)
qed

text \<open>
  C7. Let an element of a shared kind be mapped in a state where the flag of the kind is
  not true, and let the compiler reject the shared schema. Then the annotation of the
  field is the reference to the formatted name of the kind all the same (for a multilink,
  the reference with its exclusions), the iteration of the loop returns normally, the
  registry and the output are unchanged (so the flag is still not true), the failure is
  printed with the kind and the title, and the call of the compiler is on record. Any
  later element of the kind, mapped in a state where the flag of the kind is still not
  true, calls the compiler again; and if the next call succeeds with a non-empty text,
  that text is pushed and the flag becomes true.
\<close>

theorem shared_render_failure:
  assumes "type el = k" and "k \<in> set autogeneratedPropertyTypes"
    and "hasTypeBeenGenerated st k \<noteq> Some True"
    and "compile g (length (compileCalls st))
           (AutogeneratedSchema k (getBlokTypeName g k)) k = Inl e"
    and "typeMapperField g el st = (element, st')"
  shows "element = no_annotation\<lparr>ann_type := Some (Single k),
           tsType := Some (if k = ''multilink'' then multilinkTsType g el
                           else getBlokTypeName g k)\<rparr>
    \<and> (\<exists>r. typeMapperStep g (parseObj, st) (key, el) = Inr r)
    \<and> hasTypeBeenGenerated st' = hasTypeBeenGenerated st
    \<and> registrySets st' = registrySets st
    \<and> typeDefsFileStrings st' = typeDefsFileStrings st
    \<and> console st' = console st @
         [[''Error generating type '' @ k @ '' with title '' @ getBlokTypeName g k, e]]
    \<and> compileCalls st' = compileCalls st @ [(AutogeneratedSchema k (getBlokTypeName g k), k)]
    \<and> hasTypeBeenGenerated st' k \<noteq> Some True
    \<and> (\<forall>el2 st2. type el2 = k \<and> hasTypeBeenGenerated st2 k \<noteq> Some True \<longrightarrow>
          compileCalls (snd (typeMapperField g el2 st2))
            = compileCalls st2 @ [(AutogeneratedSchema k (getBlokTypeName g k), k)])
    \<and> (\<forall>el2 ts. type el2 = k \<and> ts \<noteq> []
          \<and> compile g (length (compileCalls st'))
               (AutogeneratedSchema k (getBlokTypeName g k)) k = Inr ts \<longrightarrow>
          typeDefsFileStrings (snd (typeMapperField g el2 st'))
            = typeDefsFileStrings st' @ [(SharedType k, ts)]
          \<and> hasTypeBeenGenerated (snd (typeMapperField g el2 st')) k = Some True)"
proof -
  have auto_el: "type el \<in> set autogeneratedPropertyTypes"
    using assms(1,2) by simp
  have gt: "generateType g k (getBlokTypeName g k) st =
     (None, st\<lparr>compileCalls := compileCalls st @ [(AutogeneratedSchema k (getBlokTypeName g k), k)],
               console := console st @
                 [[''Error generating type '' @ k @ '' with title '' @ getBlokTypeName g k, e]]\<rparr>)"
    by (rule generateType_failure[OF assms(2,3,4)])
  have st': "st' = st\<lparr>compileCalls := compileCalls st @ [(AutogeneratedSchema k (getBlokTypeName g k), k)],
               console := console st @
                 [[''Error generating type '' @ k @ '' with title '' @ getBlokTypeName g k, e]]\<rparr>"
    using typeMapperField_state[OF auto_el, of g st] assms(1,5) gt by simp
  have el: "element = no_annotation\<lparr>ann_type := Some (Single k),
           tsType := Some (if k = ''multilink'' then multilinkTsType g el
                           else getBlokTypeName g k)\<rparr>"
    using typeMapperField_reference[OF auto_el, of g st] assms(1,5) by simp
  have step: "\<exists>r. typeMapperStep g (parseObj, st) (key, el) = Inr r"
    using auto_el by (auto simp: typeMapperStep_def Let_def split_def autogeneratedPropertyTypes_def)
  have retry: "compileCalls (snd (typeMapperField g el2 st2))
            = compileCalls st2 @ [(AutogeneratedSchema k (getBlokTypeName g k), k)]"
    if "type el2 = k" "hasTypeBeenGenerated st2 k \<noteq> Some True" for el2 st2
  proof -
    have a2: "type el2 \<in> set autogeneratedPropertyTypes" using that(1) assms(2) by simp
    have f2: "hasTypeBeenGenerated st2 k \<noteq> Some True"
      using that(2) by simp
    show ?thesis
      using typeMapperField_state[OF a2, of g st2]
        generateType_attempt[OF assms(2) f2, of g "getBlokTypeName g k"] that(1)
      by (simp add: push_def split: option.splits)
  qed
  have recover: "typeDefsFileStrings (snd (typeMapperField g el2 st'))
            = typeDefsFileStrings st' @ [(SharedType k, ts)]
          \<and> hasTypeBeenGenerated (snd (typeMapperField g el2 st')) k = Some True"
    if "type el2 = k" "ts \<noteq> []"
      "compile g (length (compileCalls st'))
               (AutogeneratedSchema k (getBlokTypeName g k)) k = Inr ts" for el2 ts
  proof -
    have a2: "type el2 \<in> set autogeneratedPropertyTypes" using that(1) assms(2) by simp
    have f2: "hasTypeBeenGenerated st' k \<noteq> Some True"
      using st' assms(3) by simp
    show ?thesis
      using typeMapperField_state[OF a2, of g st']
        generateType_success[OF assms(2) f2 that(3)] that(1,2)
      by (simp add: push_def)
  qed
  have frame: "hasTypeBeenGenerated st' = hasTypeBeenGenerated st"
    "registrySets st' = registrySets st"
    "typeDefsFileStrings st' = typeDefsFileStrings st"
    "console st' = console st @
         [[''Error generating type '' @ k @ '' with title '' @ getBlokTypeName g k, e]]"
    "compileCalls st' = compileCalls st @ [(AutogeneratedSchema k (getBlokTypeName g k), k)]"
    by (simp_all add: st')
  have still: "hasTypeBeenGenerated st' k \<noteq> Some True"
    using frame(1) assms(3) by simp
  from el step frame still retry recover show ?thesis
    by blast
qed

theorem shared_render_failure_witness:
  "type (field ''asset'') = ''asset'' \<and> ''asset'' \<in> set autogeneratedPropertyTypes
   \<and> hasTypeBeenGenerated initial_state ''asset'' \<noteq> Some True
   \<and> compile (sample_generator flaky_compile [teaser]) (length (compileCalls initial_state))
        (AutogeneratedSchema ''asset'' (getBlokTypeName (sample_generator flaky_compile [teaser]) ''asset''))
        ''asset'' = Inl ''boom''
   \<and> fst (typeMapperField (sample_generator flaky_compile [teaser]) (field ''asset'') initial_state)
       = no_annotation\<lparr>ann_type := Some (Single ''asset''), tsType := Some ''Asset''\<rparr>
   \<and> hasTypeBeenGenerated
        (snd (typeMapperField (sample_generator flaky_compile [teaser]) (field ''asset'')
                initial_state)) ''asset'' = Some False
   \<and> typeDefsFileStrings
        (snd (typeMapperField (sample_generator flaky_compile [teaser]) (field ''asset'')
           (snd (typeMapperField (sample_generator flaky_compile [teaser]) (field ''asset'')
                   initial_state))))
       = typeDefsFileStrings initial_state @ [(SharedType ''asset'', ''export type asset'')]"
proof -
  let ?g = "sample_generator flaky_compile [teaser]"
  let ?r = "typeMapperField ?g (field ''asset'') initial_state"
  have h1: "type (field ''asset'') = ''asset''"
    by (simp add: field_def)
  have h2: "''asset'' \<in> set autogeneratedPropertyTypes"
    by (simp add: autogeneratedPropertyTypes_def)
  have h3: "hasTypeBeenGenerated initial_state ''asset'' \<noteq> Some True"
    by (simp add: initial_state_def)
  have h4: "compile ?g (length (compileCalls initial_state))
        (AutogeneratedSchema ''asset'' (getBlokTypeName ?g ''asset'')) ''asset'' = Inl ''boom''"
    by (simp add: sample_defs initial_state_def)
  have h5: "?r = (fst ?r, snd ?r)"
    by simp
  note fact = shared_render_failure[OF h1 h2 h3 h4 h5, of "[]" "''image''"]
  have nm: "getBlokTypeName ?g ''asset'' = ''Asset''"
    by (simp add: sample_defs pascal_defs)
  have c1: "fst ?r = no_annotation\<lparr>ann_type := Some (Single ''asset''), tsType := Some ''Asset''\<rparr>"
    using fact nm by simp
  have c2: "hasTypeBeenGenerated (snd ?r) ''asset'' = Some False"
    using fact by (simp add: initial_state_def)
  have calls: "compileCalls (snd ?r) = [(AutogeneratedSchema ''asset'' ''Asset'', ''asset'')]"
    using fact nm by (simp add: initial_state_def)
  have again: "compile ?g (length (compileCalls (snd ?r)))
      (AutogeneratedSchema ''asset'' (getBlokTypeName ?g ''asset'')) ''asset''
      = Inr ''export type asset''"
    by (simp add: calls) (simp add: sample_defs)
  have c3: "typeDefsFileStrings (snd (typeMapperField ?g (field ''asset'') (snd ?r)))
       = typeDefsFileStrings initial_state @ [(SharedType ''asset'', ''export type asset'')]"
    using fact h1 again by simp
  from h1 h2 h3 h4 c1 c2 c3 show ?thesis
    by blast
qed

subsection \<open>Custom fields\<close>

lemma map_of_filter_key:
  "map_of (filter (\<lambda>entry. fst entry \<noteq> p) xs) k = (if k = p then None else map_of xs k)"
  by (induction xs) auto

lemma map_of_object_assign_key:
  "map_of (object_assign target src) k =
     (if k \<noteq> ''__proto__'' \<and> k \<in> set (map fst src) then map_of (rev src) k
      else map_of target k)"
proof -
  have "map_of (rev (filter (\<lambda>entry. fst entry \<noteq> ''__proto__'') src)) k
        = (if k = ''__proto__'' then None else map_of (rev src) k)"
    by (simp add: rev_filter map_of_filter_key)
  moreover have "(map_of (rev src) k = None) = (k \<notin> set (map fst src))"
    by (simp add: map_of_eq_None_iff)
  ultimately show ?thesis
    by (auto simp: map_of_object_assign map_add_def split: option.splits)
qed

lemma typeMapperStep_frame:
  assumes "typeMapperStep g acc entry = Inr acc'" and "k \<notin> assigned_keys g entry"
  shows "map_of (fst acc') k = map_of (fst acc) k"
  using assms
  by (auto simp: typeMapperStep_def assigned_keys_def Let_def split_def
      map_of_object_assign_key object_assign_single map_of_set_property
      split: if_splits option.splits sum.splits)

lemma typeMapperLoop_frame:
  "typeMapperLoop g entries acc = Inr acc' \<Longrightarrow>
   k \<notin> \<Union> (assigned_keys g ` set entries) \<Longrightarrow>
   map_of (fst acc') k = map_of (fst acc) k"
proof (induction entries arbitrary: acc)
  case Nil
  then show ?case by simp
next
  case (Cons entry entries)
  then obtain acc1 where step: "typeMapperStep g acc entry = Inr acc1"
    and rest: "typeMapperLoop g entries acc1 = Inr acc'"
    by (auto split: sum.splits)
  have "map_of (fst acc1) k = map_of (fst acc) k"
    using typeMapperStep_frame[OF step] Cons.prems(2) by simp
  moreover have "map_of (fst acc') k = map_of (fst acc1) k"
    using Cons.IH[OF rest] Cons.prems(2) by simp
  ultimately show ?case by simp
qed

lemma typeMapperLoop_append:
  "typeMapperLoop g (xs @ ys) acc =
     (case typeMapperLoop g xs acc of Inl x \<Rightarrow> Inl x | Inr acc' \<Rightarrow> typeMapperLoop g ys acc')"
  by (induction xs arbitrary: acc) (auto split: sum.splits)

lemma requiredFields_foldl:
  "foldl (\<lambda>acc (key, v). if truthy (required v) then acc @ [key] else acc) init entries
   = init @ map fst (filter (\<lambda>(key, v). required v = Some True) entries)"
  by (induction entries arbitrary: init) (auto simp: truthy_def)

text \<open>
  C9. For a custom element (under a key that is not a tab marker): with a custom parser
  that returns a fragment, the iteration stores no entry for the element itself and
  assigns the fragment onto the field mapping, so that every key of the fragment gets the
  fragment's value and every other key keeps its own (a key \<open>__proto__\<close> of the
  fragment creates no property); and in the mapping \<open>#typeMapper\<close> returns for the whole
  schema, every key of the fragment that no later element assigns holds the fragment's
  value. Without a custom parser the mapping and the state are untouched, and
  \<open>#typeMapper\<close> returns what it returns for the schema without the element. In the
  mapping \<open>#typeMapper\<close> returns, the key of the custom element is absent unless a
  fragment or another element assigns it. The required fields of a component are
  \<open>component\<close>, \<open>_uid\<close> and the keys of its schema marked required, custom or not, and
  they are the \<open>required\<close> of the object handed to the compiler.
\<close>

theorem custom_field_substitution:
  assumes "type el = ''custom''" and "take 4 fieldKey \<noteq> ''tab-''"
  shows "(\<forall>parser fragment.
            customTypeParser g = Some parser \<and> parser fieldKey el = Inr fragment \<longrightarrow>
            typeMapperStep g (parseObj, st) (fieldKey, el)
              = Inr (object_assign parseObj fragment, st)
            \<and> map_of (object_assign parseObj fragment)
                = map_of parseObj
                  ++ map_of (rev (filter (\<lambda>entry. fst entry \<noteq> ''__proto__'') fragment))
            \<and> (\<forall>props st' k.
                  typeMapper g (before @ (fieldKey, el) # after) st = Inr (props, st')
                  \<and> k \<in> set (map fst fragment) \<and> k \<noteq> ''__proto__''
                  \<and> k \<notin> \<Union> (assigned_keys g ` set after) \<longrightarrow>
                  map_of props k = map_of (rev fragment) k))
    \<and> (customTypeParser g = None \<longrightarrow>
          typeMapperStep g (parseObj, st) (fieldKey, el) = Inr (parseObj, st)
          \<and> typeMapper g (before @ (fieldKey, el) # after) st = typeMapper g (before @ after) st)
    \<and> (\<forall>props st'.
          typeMapper g (before @ (fieldKey, el) # after) st = Inr (props, st')
          \<and> fieldKey \<notin> \<Union> (assigned_keys g ` set (before @ (fieldKey, el) # after)) \<longrightarrow>
          map_of props fieldKey = None)
    \<and> requiredFields c
        = [''component'', ''_uid'']
          @ map fst (filter (\<lambda>(k, v). required v = Some True) (schema c))
    \<and> obj_required (componentObject g c props0) = requiredFields c"
proof -
  have with_parser: "typeMapperStep g (po, s) (fieldKey, el)
              = Inr (object_assign po fragment, s)"
    if "customTypeParser g = Some parser" "parser fieldKey el = Inr fragment"
    for parser fragment po s
    using assms that by (simp add: typeMapperStep_def)
  have held: "map_of props k = map_of (rev fragment) k"
    if p: "customTypeParser g = Some parser" "parser fieldKey el = Inr fragment"
      and run: "typeMapper g (before @ (fieldKey, el) # after) st = Inr (props, st')"
      and k: "k \<in> set (map fst fragment)" "k \<noteq> ''__proto__''"
        "k \<notin> \<Union> (assigned_keys g ` set after)"
    for parser fragment props st' k
  proof -
    from run obtain acc1 where
      b: "typeMapperLoop g before ([], st) = Inr acc1"
      and r: "typeMapperLoop g ((fieldKey, el) # after) acc1 = Inr (props, st')"
      by (auto simp: typeMapper_def typeMapperLoop_append split: sum.splits)
    have "typeMapperStep g acc1 (fieldKey, el) = Inr (object_assign (fst acc1) fragment, snd acc1)"
      using with_parser[OF p, of "fst acc1" "snd acc1"] by simp
    then have a: "typeMapperLoop g after (object_assign (fst acc1) fragment, snd acc1)
                   = Inr (props, st')"
      using r by simp
    have "map_of props k = map_of (object_assign (fst acc1) fragment) k"
      using typeMapperLoop_frame[OF a k(3)] by simp
    then show ?thesis
      using k(1,2) by (simp add: map_of_object_assign_key)
  qed
  have without: "typeMapperStep g (po, s) (fieldKey, el) = Inr (po, s)"
    if "customTypeParser g = None" for po s
    using assms that by (simp add: typeMapperStep_def object_assign_def)
  have skip: "typeMapper g (before @ (fieldKey, el) # after) st = typeMapper g (before @ after) st"
    if "customTypeParser g = None"
    using without[OF that]
    by (auto simp: typeMapper_def typeMapperLoop_append split: sum.splits)
  have own: "map_of props fieldKey = None"
    if "typeMapper g (before @ (fieldKey, el) # after) st = Inr (props, st')"
      "fieldKey \<notin> \<Union> (assigned_keys g ` set (before @ (fieldKey, el) # after))"
    for props st'
    using typeMapperLoop_frame[of g "before @ (fieldKey, el) # after" "([], st)"
        "(props, st')" fieldKey] that
    by (simp add: typeMapper_def)
  have req: "requiredFields c
        = [''component'', ''_uid'']
          @ map fst (filter (\<lambda>(k, v). required v = Some True) (schema c))"
    unfolding requiredFields_def by (rule requiredFields_foldl)
  have obj: "obj_required (componentObject g c props0) = requiredFields c"
    by (simp add: componentObject_def)
  from with_parser[of _ _ parseObj st] held without[of parseObj st] skip own req obj
    map_of_object_assign[of parseObj]
  show ?thesis
    by blast
qed

theorem custom_field_substitution_witness:
  "type ((field ''custom'')\<lparr>required := Some True\<rparr>) = ''custom''
   \<and> take 4 ''location'' \<noteq> ''tab-''
   \<and> typeMapper (sample_generator accepting_compile [venue]) (schema venue) initial_state
       = typeMapper (sample_generator accepting_compile [venue]) [(''label'', field ''text'')]
           initial_state
   \<and> obj_required (componentObject (sample_generator accepting_compile [venue]) venue [])
       = [''component'', ''_uid'', ''location'']
   \<and> typeMapperStep
        ((sample_generator accepting_compile [venue])\<lparr>customTypeParser := Some sample_parser\<rparr>)
        ([], initial_state) (''location'', (field ''custom'')\<lparr>required := Some True\<rparr>)
       = Inr ([(''location_lat'', CustomProperty ''{ \"type\": \"number\" }''),
               (''location_lng'', CustomProperty ''{ \"type\": \"number\" }'')], initial_state)
   \<and> (\<exists>props st'.
         typeMapper
           ((sample_generator accepting_compile [venue])\<lparr>customTypeParser := Some sample_parser\<rparr>)
           (schema venue) initial_state = Inr (props, st')
         \<and> map_of props ''location_lat'' = Some (CustomProperty ''{ \"type\": \"number\" }'')
         \<and> map_of props ''location_lng'' = Some (CustomProperty ''{ \"type\": \"number\" }'')
         \<and> map_of props ''location'' = None)"
proof -
  let ?g = "sample_generator accepting_compile [venue]"
  let ?p = "?g\<lparr>customTypeParser := Some sample_parser\<rparr>"
  let ?el = "(field ''custom'')\<lparr>required := Some True\<rparr>"
  let ?frag = "[(''location_lat'', CustomProperty ''{ \"type\": \"number\" }''),
               (''location_lng'', CustomProperty ''{ \"type\": \"number\" }'')]"
  have e: "schema venue = [(''label'', field ''text'')] @ (''location'', ?el) # []"
    by (simp add: venue_def)
  have h1: "type ?el = ''custom''" by (simp add: field_def)
  have h2: "take 4 ''location'' \<noteq> ''tab-''" by simp
  have none: "customTypeParser ?g = None" by (simp add: sample_defs)
  have some: "customTypeParser ?p = Some sample_parser"
    by simp
  have frag: "sample_parser ''location'' ?el = Inr ?frag"
    by (simp add: sample_parser_def)
  note a = custom_field_substitution[OF h1 h2, of ?g "[]" initial_state
      "[(''label'', field ''text'')]" "[]" venue "[]"]
  note b = custom_field_substitution[OF h1 h2,
      of ?p "[]" initial_state "[(''label'', field ''text'')]" "[]" venue "[]"]
  have c1: "typeMapper ?g (schema venue) initial_state
       = typeMapper ?g [(''label'', field ''text'')] initial_state"
    using a none by (simp add: e)
  have c2: "obj_required (componentObject ?g venue []) = [''component'', ''_uid'', ''location'']"
    using a by (simp add: venue_def field_def)
  have c3: "typeMapperStep ?p ([], initial_state) (''location'', ?el) = Inr (?frag, initial_state)"
    using b some frag by (simp add: object_defs)
  obtain props st' where run: "typeMapper ?p (schema venue) initial_state = Inr (props, st')"
    by (simp add: typeMapper_def typeMapperStep_def typeMapperField_def
        parseBlokSchemaProperty_def autogeneratedPropertyTypes_def option_values_def
        fallback_type_def object_defs no_annotation_def sample_defs Let_def)
  have run': "typeMapper ?p ([(''label'', field ''text'')] @ (''location'', ?el) # []) initial_state
     = Inr (props, st')"
    using run by (simp add: e)
  have held: "map_of props k = map_of (rev ?frag) k"
    if "k \<in> set (map fst ?frag)" "k \<noteq> ''__proto__''" for k
    using b some frag run' that by simp
  have d1: "map_of props ''location_lat'' = Some (CustomProperty ''{ \"type\": \"number\" }'')"
    using held[of "''location_lat''"] by simp
  have d2: "map_of props ''location_lng'' = Some (CustomProperty ''{ \"type\": \"number\" }'')"
    using held[of "''location_lng''"] by simp
  have free: "''location'' \<notin> \<Union> (assigned_keys ?p `
      set ([(''label'', field ''text'')] @ (''location'', ?el) # []))"
    by (simp add: assigned_keys_def sample_parser_def field_def)
  have d3: "map_of props ''location'' = None"
    using b run' free by blast
  from h1 h2 c1 c2 c3 run d1 d2 d3 show ?thesis
    by blast
qed

subsection \<open>A component that fails to compile\<close>

text \<open>
  C3, at a failing input. The compiler rejects the first of two components, \<open>memo\<close>.
  What \<open>generateTSFile\<close> prints is the label \<open>ERROR\<close> and the error of the compiler,
  nothing else: the name of the component is not in the report. The output holds no
  definition of \<open>memo\<close>, and the second component is compiled and pushed.
\<close>

theorem component_failure_report:
  "console (final_state (generateTSFile (sample_generator picky_compile [memo, teaser])))
     = [[''ERROR'', ''boom'']]
   \<and> map fst (typeDefsFileStrings
        (final_state (generateTSFile (sample_generator picky_compile [memo, teaser]))))
     = [ImportLine, SharedType ''asset'', ComponentType ''teaser'']"
  by (simp add: run_defs sample_defs pascal_defs)

text \<open>
  The part of C3 that holds for every input: when the compiler rejects the object of a
  component, the loop of \<open>generateTSFile\<close> goes on with the remaining components, from
  the state \<open>#typeMapper\<close> left, with the call and the printed line recorded and
  nothing pushed for the component.
\<close>

theorem component_render_failure:
  assumes "typeMapper g (schema c) st = Inr (props, st1)"
    and "compile g (length (compileCalls st1))
           (ComponentSchema (componentObject g c props)) (name c) = Inl e"
  shows "generateLoop g (c # cs) st =
           generateLoop g cs
             (st1\<lparr>compileCalls := compileCalls st1 @
                      [(ComponentSchema (componentObject g c props), name c)],
                  console := console st1 @ [[''ERROR'', e]]\<rparr>)"
  using assms by (simp add: generateComponent_def call_compile_def)

theorem component_render_failure_witness:
  "typeMapper (sample_generator picky_compile [memo, teaser]) (schema memo) initial_state
     = Inr ([(''body'', Annotation (no_annotation\<lparr>ann_type := Some (Single ''string'')\<rparr>))],
            initial_state)
   \<and> generateLoop (sample_generator picky_compile [memo, teaser]) [memo, teaser] initial_state
     = generateLoop (sample_generator picky_compile [memo, teaser]) [teaser]
         (initial_state\<lparr>compileCalls :=
            [(ComponentSchema (componentObject (sample_generator picky_compile [memo, teaser]) memo
                [(''body'', Annotation (no_annotation\<lparr>ann_type := Some (Single ''string'')\<rparr>))]),
              ''memo'')],
            console := [[''ERROR'', ''boom'']]\<rparr>)"
proof -
  let ?g = "sample_generator picky_compile [memo, teaser]"
  let ?props = "[(''body'', Annotation (no_annotation\<lparr>ann_type := Some (Single ''string'')\<rparr>))]"
  have run: "typeMapper ?g (schema memo) initial_state = Inr (?props, initial_state)"
    by (simp add: typeMapper_def typeMapperStep_def typeMapperField_def
        parseBlokSchemaProperty_def autogeneratedPropertyTypes_def option_values_def
        fallback_type_def object_defs no_annotation_def memo_def field_def Let_def)
  have nm: "name memo = ''memo''" by (simp add: memo_def)
  have rej: "compile ?g (length (compileCalls initial_state))
           (ComponentSchema (componentObject ?g memo ?props)) (name memo) = Inl ''boom''"
    by (simp add: nm) (simp add: sample_generator_def new_generator_def picky_compile_def Let_def)
  have "generateLoop ?g [memo, teaser] initial_state
     = generateLoop ?g [teaser]
         (initial_state\<lparr>compileCalls := compileCalls initial_state @
            [(ComponentSchema (componentObject ?g memo ?props), name memo)],
            console := console initial_state @ [[''ERROR'', ''boom'']]\<rparr>)"
    by (rule component_render_failure[OF run rej])
  moreover have "compileCalls initial_state = []" "console initial_state = []"
    by (simp_all add: initial_state_def)
  ultimately show ?thesis
    using run nm by simp
qed

subsection \<open>Type names without a configured suffix\<close>

text \<open>
  C8, at a failing input. With no suffix configured the template literal of
  \<open>#getBlokTypeName\<close> interpolates \<^verbatim>\<open>undefined\<close>, so the name of \<open>teaser\<close> is formatted from
  \<open>teaserundefined\<close>; with the empty suffix, and with a prefix and a suffix, the name is
  the one the specification describes.
\<close>

theorem unset_suffix_is_undefined:
  "getBlokTypeName (new_generator None None None pascal_of_spec accepting_compile []) ''teaser''
     = ''Teaserundefined''
   \<and> getBlokTypeName (new_generator None (Some []) None pascal_of_spec accepting_compile [])
       ''teaser'' = ''Teaser''
   \<and> getBlokTypeName (new_generator (Some ''sb_'') (Some ''_type'') None pascal_of_spec
         accepting_compile []) ''teaser'' = ''SbTeaserType''"
  by (simp add: sample_defs pascal_defs)

text \<open>
  The part of C8 that holds: with a suffix configured, the type name is the case
  conversion applied to prefix, name and suffix concatenated, an unset prefix counting
  as empty.
\<close>

theorem type_name_of_triple:
  "getBlokTypeName (new_generator prefix (Some suffix) parser pascal compiler schemas) blokName
     = pascal ((case prefix of None \<Rightarrow> [] | Some p \<Rightarrow> p) @ blokName @ suffix)"
  by (simp add: getBlokTypeName_def new_generator_def nullish_empty_def template_def Let_def)

end
